theory Spec2Isabelle
  imports Main "HOL-Library.Word" "HOL-Library.AList"
begin

section \<open>The authenticated fetcher: \<open>app/api/services/api_clients/base_service.py\<close>\<close>

subsection \<open>Values that cross the HTTP boundary\<close>

text \<open>
  A response body (\<open>response.content\<close>) is a sequence of bytes.  A Python \<open>str\<close> is
  represented by the \<open>string\<close> holding its UTF-8 encoding, so that decoding a byte
  sequence is the identity on well-formed input and fails on anything else.
\<close>

type_synonym byte = "8 word"

definition cont :: "byte \<Rightarrow> bool" where
  "cont b = (0x80 \<le> b \<and> b \<le> 0xBF)"

text \<open>
  \<open>bytes.decode('utf-8')\<close> with the default \<open>errors='strict'\<close>: the well-formed byte
  sequences of UTF-8 (no overlong forms, no surrogates, nothing above U+10FFFF).
\<close>

fun utf8_valid :: "byte list \<Rightarrow> bool" where
  "utf8_valid [] = True"
| "utf8_valid (b0 # bs) =
     (if b0 < 0x80 then utf8_valid bs
      else if 0xC2 \<le> b0 \<and> b0 \<le> 0xDF then
        (case bs of b1 # r \<Rightarrow> cont b1 \<and> utf8_valid r | _ \<Rightarrow> False)
      else if 0xE0 \<le> b0 \<and> b0 \<le> 0xEF then
        (case bs of
           b1 # b2 # r \<Rightarrow>
             cont b1 \<and> cont b2 \<and> (if b0 = 0xE0 then 0xA0 \<le> b1 else True)
               \<and> (if b0 = 0xED then b1 \<le> 0x9F else True) \<and> utf8_valid r
         | _ \<Rightarrow> False)
      else if 0xF0 \<le> b0 \<and> b0 \<le> 0xF4 then
        (case bs of
           b1 # b2 # b3 # r \<Rightarrow>
             cont b1 \<and> cont b2 \<and> cont b3 \<and> (if b0 = 0xF0 then 0x90 \<le> b1 else True)
               \<and> (if b0 = 0xF4 then b1 \<le> 0x8F else True) \<and> utf8_valid r
         | _ \<Rightarrow> False)
      else False)"

definition decode_utf8 :: "byte list \<Rightarrow> string option" where
  "decode_utf8 bs = (if utf8_valid bs then Some (map (\<lambda>b. char_of (unat b)) bs) else None)"

text \<open>\<open>str(n)\<close> for a non-negative integer: its decimal digits.\<close>

fun str_nat :: "nat \<Rightarrow> string" where
  "str_nat n =
     (if n < 10 then [char_of (48 + n)]
      else str_nat (n div 10) @ [char_of (48 + n mod 10)])"

declare str_nat.simps [simp del]

record response =
  status_code :: nat
  content :: "byte list"

text \<open>
  What can be raised: \<open>httpx.HTTPStatusError\<close> with its \<open>response\<close> attribute, the
  \<open>UnicodeDecodeError\<close> of a failed \<open>decode\<close> with the bytes it was given, any other
  instance of \<open>Exception\<close> (a transport fault, a JSON decoding error, whatever a hook
  raises) with its \<open>str(exc)\<close>, and a \<open>BaseException\<close> that is not an \<open>Exception\<close>
  (\<open>SystemExit\<close>, \<open>KeyboardInterrupt\<close>, \<open>asyncio.CancelledError\<close>) with the name of its
  class.  \<open>is_Exception\<close> is \<open>isinstance(exc, Exception)\<close>, the test an
  \<open>except Exception\<close> clause makes.
\<close>

datatype exn =
    HTTPStatusError response
  | UnicodeDecodeError "byte list"
  | OtherException string
  | NonException string

fun is_Exception :: "exn \<Rightarrow> bool" where
  "is_Exception (HTTPStatusError r) = True"
| "is_Exception (UnicodeDecodeError bs) = True"
| "is_Exception (OtherException m) = True"
| "is_Exception (NonException n) = False"

text \<open>\<open>response.is_success\<close> and \<open>response.raise_for_status()\<close> of httpx.\<close>

definition is_success :: "response \<Rightarrow> bool" where
  "is_success r = (200 \<le> status_code r \<and> status_code r \<le> 299)"

definition raise_for_status :: "response \<Rightarrow> exn + response" where
  "raise_for_status r = (if is_success r then Inr r else Inl (HTTPStatusError r))"

subsection \<open>Request objects and their flattening\<close>

text \<open>
  A request object is a pydantic model: its fields in the order they are declared, each
  with its name, what \<open>Field(...)\<close> declares of \<open>alias\<close>, \<open>serialization_alias\<close> and
  \<open>exclude\<close>, and its value.  \<open>model_dump(by_alias=True)\<close> leaves out the fields declared
  with \<open>exclude=True\<close> and builds a dict by storing each other field under its
  serialization alias, else under its alias, else under its name; a dict keeps the
  position of a key that is stored again and takes the new value.  A model that replaces
  its own serialization (\<open>model_serializer\<close>) is outside this description.
\<close>

record 'v field =
  field_name :: string
  field_alias :: "string option"
  serialization_alias :: "string option"
  exclude :: bool
  field_value :: 'v

definition dump_key :: "'v field \<Rightarrow> string" where
  "dump_key f =
     (case serialization_alias f of
        Some s \<Rightarrow> s
      | None \<Rightarrow> (case field_alias f of Some a \<Rightarrow> a | None \<Rightarrow> field_name f))"

definition model_dump_by_alias :: "'v field list \<Rightarrow> (string \<times> 'v) list" where
  "model_dump_by_alias fs =
     fold (\<lambda>f d. AList.update (dump_key f) (field_value f) d) (filter (\<lambda>f. \<not> exclude f) fs) []"

subsection \<open>Effects\<close>

text \<open>
  What \<open>client.get\<close> is called with: the URL and the keyword arguments \<open>headers\<close>,
  \<open>params\<close> and \<open>timeout\<close>.
\<close>

record 'v get_call =
  get_url :: string
  get_headers :: "(string \<times> string) list"
  get_params :: "(string \<times> 'v) list"
  get_timeout :: nat

text \<open>
  Modelled from the spec: \<open>app.core.logger\<close> is not among the source files.  Its \<open>logger\<close>
  is taken to record one line per call, at the level of the method called
  (\<open>logger.info\<close>, \<open>logger.error\<close>), with the message it is given.
\<close>

datatype level = INFO | ERROR

text \<open>The observable effects of a call, in the order they happen.\<close>

datatype 'v event = Get "'v get_call" | Log level string

definition error_logs :: "'v event list \<Rightarrow> string list" where
  "error_logs evs = [m. Log ERROR m \<leftarrow> evs]"

definition logs :: "'v event list \<Rightarrow> (level \<times> string) list" where
  "logs evs = [(l, m). Log l m \<leftarrow> evs]"

definition gets :: "'v event list \<Rightarrow> 'v get_call list" where
  "gets evs = [c. Get c \<leftarrow> evs]"

text \<open>
  The world outside the function: what the server (or the network) answers to a GET,
  what \<open>response.json()\<close> makes of a body, and how Python prints a dict and an exception
  (\<open>format\<close> of \<open>params\<close> in an f-string, \<open>str(exc)\<close>).
\<close>

record ('v, 'j) env =
  http_get :: "'v get_call \<Rightarrow> exn + response"
  json_loads :: "byte list \<Rightarrow> exn + 'j"
  format_dict :: "(string \<times> 'v) list \<Rightarrow> string"
  str_exc :: "exn \<Rightarrow> string"

text \<open>
  A concrete subclass of \<open>BaseService\<close>: its class name and its two hooks.
  \<open>parse_response\<close> raises or returns; it is annotated to return a response object, which
  Python does not enforce, so what it returns is a response object (\<open>Some\<close>) or \<open>None\<close>.
\<close>

record ('j, 'r) service =
  class_name :: string
  get_endpoint :: string
  parse_response :: "'j \<Rightarrow> exn + 'r option"

subsection \<open>\<open>BaseService.make_request\<close>\<close>

text \<open>
  The result is \<open>Inl exc\<close> when the call raises \<open>exc\<close> and \<open>Inr v\<close> when it returns \<open>v\<close>;
  the declared return type \<open>ResponseType | None\<close> is \<open>'r option\<close>, and the value returned
  is the one the hook returned.  The second component lists the effects of the call.
  An exception raised while the handler of \<open>HTTPStatusError\<close> builds its log message
  leaves the handler before \<open>logger.error\<close> is called, and the sibling \<open>except Exception\<close>
  clause does not apply to it.  Both \<open>except Exception\<close> clauses let through, with no log
  line, what is not an instance of \<open>Exception\<close>.
\<close>

definition make_request ::
  "('v, 'j) env \<Rightarrow> ('j, 'r) service \<Rightarrow> 'v field list \<Rightarrow> string \<Rightarrow> string
     \<Rightarrow> (exn + 'r option) \<times> 'v event list"
where
  "make_request env self request_data access_token base_url =
     (let endpoint = get_endpoint self;
          url = base_url @ endpoint;
          headers = [(''Authorization'', ''Bearer '' @ access_token)];
          params = model_dump_by_alias request_data;
          call = \<lparr>get_url = url, get_headers = headers, get_params = params, get_timeout = 15\<rparr>
      in case (case http_get env call of
                 Inl exc \<Rightarrow> Inl exc
               | Inr response \<Rightarrow> raise_for_status response) of
           Inl (HTTPStatusError r) \<Rightarrow>
             (case decode_utf8 (content r) of
                None \<Rightarrow> (Inl (UnicodeDecodeError (content r)), [Get call])
              | Some body \<Rightarrow>
                  (Inl (HTTPStatusError r),
                   [Get call,
                    Log ERROR (''Error response '' @ str_nat (status_code r)
                      @ '' while making request to '' @ url @ ''. Response content: '' @ body)]))
         | Inl exc \<Rightarrow>
             if is_Exception exc then
               (Inl exc,
                [Get call,
                 Log ERROR (''An error occurred while making request to '' @ url @ '': ''
                   @ str_exc env exc)])
             else (Inl exc, [Get call])
         | Inr response \<Rightarrow>
             (let evs = [Get call,
                         Log INFO (class_name self @ '' with params '' @ format_dict env params
                           @ '' request successful'')]
              in case json_loads env (content response) of
                   Inl exc \<Rightarrow> (Inl exc, evs)
                 | Inr response_data \<Rightarrow>
                     (case parse_response self response_data of
                        Inl exc \<Rightarrow>
                          if is_Exception exc then
                            (Inl exc,
                             evs @ [Log ERROR (''An error occurred while parsing response from ''
                               @ url @ '' with params '' @ format_dict env params)])
                          else (Inl exc, evs)
                      | Inr v \<Rightarrow> (Inr v, evs))))"

subsection \<open>Sample services and environments\<close>

text \<open>
  A service whose endpoint is \<open>/v1/lookup\<close>, whose JSON values are integers and whose
  parser accepts the non-negative ones; the same service with a parser that returns
  \<open>None\<close>, and with a parser that is interrupted; and an environment in which the GET has
  a fixed outcome, a body is JSON when it is the text \<open>42\<close> or \<open>-1\<close>, and dicts and
  exceptions are printed in a simple way.
\<close>

definition lookup_service :: "(int, nat) service" where
  "lookup_service =
     \<lparr>class_name = ''LookupService'', get_endpoint = ''/v1/lookup'',
      parse_response =
        (\<lambda>j. if j < 0 then Inl (OtherException ''negative'') else Inr (Some (nat j)))\<rparr>"

definition none_service :: "(int, nat) service" where
  "none_service = lookup_service\<lparr>parse_response := (\<lambda>j. Inr None)\<rparr>"


definition sample_json :: "byte list \<Rightarrow> exn + int" where
  "sample_json bs =
     (if bs = [0x34, 0x32] then Inr 42
      else if bs = [0x2D, 0x31] then Inr (- 1)
      else Inl (OtherException ''Expecting value''))"

definition sample_format :: "(string \<times> string) list \<Rightarrow> string" where
  "sample_format d = concat (map (\<lambda>(k, v). k @ ''='' @ v @ '';'') d)"

definition sample_str :: "exn \<Rightarrow> string" where
  "sample_str e =
     (case e of
        HTTPStatusError r \<Rightarrow> ''status '' @ str_nat (status_code r)
      | UnicodeDecodeError bs \<Rightarrow> ''invalid utf-8''
      | OtherException m \<Rightarrow> m
      | NonException n \<Rightarrow> n)"

definition sample_env :: "exn + response \<Rightarrow> (string, int) env" where
  "sample_env outcome =
     \<lparr>http_get = (\<lambda>c. outcome), json_loads = sample_json, format_dict = sample_format,
      str_exc = sample_str\<rparr>"

text \<open>
  A request with a field \<open>user_name\<close> aliased to \<open>username\<close>; the same request with that
  field declared \<open>exclude=True\<close>; and with the field given a serialization alias.
\<close>

definition user_name_request :: "string field list" where
  "user_name_request =
     [\<lparr>field_name = ''user_name'', field_alias = Some ''username'', serialization_alias = None,
       exclude = False, field_value = ''bob''\<rparr>,
      \<lparr>field_name = ''page'', field_alias = None, serialization_alias = None,
       exclude = False, field_value = ''2''\<rparr>]"



section \<open>The entity schema: \<open>app/models.py\<close>\<close>

subsection \<open>Declarations\<close>

datatype sql_type = Uuid | String nat | BigInteger | Boolean | DateTime

text \<open>
  \<open>ForeignKey("t.c", ondelete=...)\<close>: the referenced table and column and the action on
  delete; \<open>NO_ACTION\<close> is what SQL does when no action is declared.
\<close>

datatype on_delete = CASCADE | NO_ACTION

datatype fkey = ForeignKey string string on_delete

record column =
  col_name :: string
  col_type :: sql_type
  primary_key :: bool
  nullable :: bool
  unique :: bool
  foreign_key :: "fkey option"
  server_default :: bool

text \<open>
  \<open>mapped_column(...)\<close> with none of its keywords.  Every attribute of the file is
  annotated \<open>Mapped[T]\<close> with a \<open>T\<close> that is not optional, which makes the column
  \<open>NOT NULL\<close> also where \<open>nullable=False\<close> is not written.  The keywords \<open>index\<close>,
  \<open>default\<close> and \<open>onupdate\<close> act in the client or on the access path and are not recorded.
  A column declared by its \<open>ForeignKey\<close> alone takes the type of the column it references.
\<close>

definition mapped_column :: "string \<Rightarrow> sql_type \<Rightarrow> column" where
  "mapped_column n ty =
     \<lparr>col_name = n, col_type = ty, primary_key = False, nullable = False, unique = False,
      foreign_key = None, server_default = False\<rparr>"

text \<open>
  An integer primary key column with no foreign key is an identity column when it is the
  only key column of its table, as every key of the file is (\<open>autoincrement\<close>, which no
  declaration of the file spells out): the server gives it the next value of its
  sequence in a row that gives it none.
\<close>

definition autoincrement :: "column \<Rightarrow> bool" where
  "autoincrement k = (primary_key k \<and> col_type k = BigInteger \<and> foreign_key k = None)"

text \<open>\<open>relationship(back_populates=...)\<close> on an attribute annotated \<open>Mapped["Target"]\<close>.\<close>

record relationship =
  rel_name :: string
  target :: string
  back_populates :: string

record mapped_class =
  cls :: string
  tablename :: string
  columns :: "column list"
  relationships :: "relationship list"

text \<open>The two columns every class inherits from \<open>Base\<close>.\<close>

definition Base_columns :: "column list" where
  "Base_columns =
     [(mapped_column ''create_time'' DateTime)\<lparr>server_default := True\<rparr>,
      (mapped_column ''update_time'' DateTime)\<lparr>server_default := True\<rparr>]"

definition User :: mapped_class where
  "User =
     \<lparr>cls = ''User'', tablename = ''user_account'',
      columns =
        [(mapped_column ''user_id'' Uuid)\<lparr>primary_key := True\<rparr>,
         (mapped_column ''email'' (String 256))\<lparr>nullable := False, unique := True\<rparr>,
         (mapped_column ''hashed_password'' (String 128))\<lparr>nullable := False\<rparr>] @ Base_columns,
      relationships =
        [\<lparr>rel_name = ''refresh_tokens'', target = ''RefreshToken'', back_populates = ''user''\<rparr>]\<rparr>"

definition RefreshToken :: mapped_class where
  "RefreshToken =
     \<lparr>cls = ''RefreshToken'', tablename = ''refresh_token'',
      columns =
        [(mapped_column ''id'' BigInteger)\<lparr>primary_key := True\<rparr>,
         (mapped_column ''refresh_token'' (String 512))\<lparr>nullable := False, unique := True\<rparr>,
         (mapped_column ''used'' Boolean)\<lparr>nullable := False\<rparr>,
         (mapped_column ''exp'' BigInteger)\<lparr>nullable := False\<rparr>,
         (mapped_column ''user_id'' Uuid)
           \<lparr>foreign_key := Some (ForeignKey ''user_account'' ''user_id'' CASCADE)\<rparr>] @ Base_columns,
      relationships =
        [\<lparr>rel_name = ''user'', target = ''User'', back_populates = ''refresh_tokens''\<rparr>]\<rparr>"

definition Role :: mapped_class where
  "Role =
     \<lparr>cls = ''Role'', tablename = ''role'',
      columns =
        [(mapped_column ''role_id'' Uuid)\<lparr>primary_key := True\<rparr>,
         (mapped_column ''name'' (String 256))\<lparr>nullable := False, unique := True\<rparr>,
         (mapped_column ''description'' (String 256))\<lparr>nullable := False\<rparr>] @ Base_columns,
      relationships = []\<rparr>"

definition UserRole :: mapped_class where
  "UserRole =
     \<lparr>cls = ''UserRole'', tablename = ''user_role'',
      columns =
        [(mapped_column ''id'' BigInteger)\<lparr>primary_key := True\<rparr>,
         (mapped_column ''user_id'' Uuid)
           \<lparr>foreign_key := Some (ForeignKey ''user_account'' ''user_id'' CASCADE)\<rparr>,
         (mapped_column ''role_id'' Uuid)
           \<lparr>foreign_key := Some (ForeignKey ''role'' ''role_id'' CASCADE)\<rparr>] @ Base_columns,
      relationships =
        [\<lparr>rel_name = ''user'', target = ''User'', back_populates = ''roles''\<rparr>,
         \<lparr>rel_name = ''role'', target = ''Role'', back_populates = ''users''\<rparr>]\<rparr>"

definition Permission :: mapped_class where
  "Permission =
     \<lparr>cls = ''Permission'', tablename = ''permission'',
      columns =
        [(mapped_column ''permission_id'' Uuid)\<lparr>primary_key := True\<rparr>,
         (mapped_column ''name'' (String 256))\<lparr>nullable := False, unique := True\<rparr>,
         (mapped_column ''description'' (String 256))\<lparr>nullable := False\<rparr>] @ Base_columns,
      relationships = []\<rparr>"

definition RolePermission :: mapped_class where
  "RolePermission =
     \<lparr>cls = ''RolePermission'', tablename = ''role_permission'',
      columns =
        [(mapped_column ''id'' BigInteger)\<lparr>primary_key := True\<rparr>,
         (mapped_column ''role_id'' Uuid)
           \<lparr>foreign_key := Some (ForeignKey ''role'' ''role_id'' CASCADE)\<rparr>,
         (mapped_column ''permission_id'' Uuid)
           \<lparr>foreign_key := Some (ForeignKey ''permission'' ''permission_id'' CASCADE)\<rparr>]
        @ Base_columns,
      relationships =
        [\<lparr>rel_name = ''role'', target = ''Role'', back_populates = ''permissions''\<rparr>,
         \<lparr>rel_name = ''permission'', target = ''Permission'', back_populates = ''roles''\<rparr>]\<rparr>"

definition AuditLog :: mapped_class where
  "AuditLog =
     \<lparr>cls = ''AuditLog'', tablename = ''audit_log'',
      columns =
        [(mapped_column ''log_id'' Uuid)\<lparr>primary_key := True\<rparr>,
         (mapped_column ''user_id'' Uuid)
           \<lparr>foreign_key := Some (ForeignKey ''user_account'' ''user_id'' CASCADE)\<rparr>,
         (mapped_column ''action'' (String 256))\<lparr>nullable := False\<rparr>,
         (mapped_column ''timestamp'' DateTime)\<lparr>nullable := False\<rparr>,
         (mapped_column ''description'' (String 256))\<lparr>nullable := False\<rparr>] @ Base_columns,
      relationships = []\<rparr>"

text \<open>The mapped classes of the file, in the order they are declared.\<close>

definition models :: "mapped_class list" where
  "models = [User, RefreshToken, Role, UserRole, Permission, RolePermission, AuditLog]"

subsection \<open>Object attributes and back-references\<close>

text \<open>
  The attributes a mapped class declares: its columns and its relationships.
  \<open>back_populates\<close> names an attribute of the target class and creates none: the
  reference resolves when the target class declares a relationship of that name.
\<close>

definition attributes :: "mapped_class \<Rightarrow> string list" where
  "attributes m = map col_name (columns m) @ map rel_name (relationships m)"

definition find_class :: "string \<Rightarrow> mapped_class option" where
  "find_class n = find (\<lambda>m. cls m = n) models"

definition resolves :: "relationship \<Rightarrow> bool" where
  "resolves r =
     (case find_class (target r) of
        None \<Rightarrow> False
      | Some m \<Rightarrow> back_populates r \<in> set (map rel_name (relationships m)))"

definition unresolved :: "(string \<times> string \<times> string \<times> string) list" where
  "unresolved =
     concat (map (\<lambda>m. map (\<lambda>r. (cls m, rel_name r, target r, back_populates r))
                         (filter (\<lambda>r. \<not> resolves r) (relationships m))) models)"

subsection \<open>Rows, constraints and statements\<close>

text \<open>
  Modelled from the spec: the relational engine that holds the tables is not among the
  source files.  It is taken to enforce what the schema declares, as the data model of
  the spec describes it: \<open>NOT NULL\<close>, primary keys and \<open>unique\<close> columns (no second row
  with the same value), foreign keys (a child row references an existing parent row),
  and on deleting a parent the declared action on each referencing key, \<open>CASCADE\<close>
  deleting the referencing rows in turn.  A statement that violates a constraint fails
  and leaves the database as it was.  The statements are those sent to the engine: a row
  arrives with what the client has filled in (the \<open>uuid4\<close> keys, \<open>default=False\<close>), and
  the server fills in what it assigns (the clock of \<open>server_default=func.now()\<close>, the next
  value of an identity column).  Whether a value fits the type and length of its column
  differs between engines and is not part of this description: the types are recorded
  and not checked.
\<close>

datatype val = VStr string | VInt int | VBool bool | VTime int

text \<open>A row gives each column a value or \<open>NULL\<close> (\<open>None\<close>); a database gives each table its rows.\<close>

type_synonym row = "string \<Rightarrow> val option"

type_synonym database = "string \<Rightarrow> row list"

datatype constraint = NotNull | Unique | ForeignKeyConstraint

datatype db_error =
    IntegrityError constraint string string
  | UndefinedTable string
  | CascadeTooDeep string

definition empty_db :: database where
  "empty_db = (\<lambda>tn. [])"

definition find_table :: "string \<Rightarrow> mapped_class option" where
  "find_table tn = find (\<lambda>m. tablename m = tn) models"

text \<open>
  What the server assigns during one statement: its clock, and the next value of the
  sequence of the table written to.
\<close>

record server =
  server_now :: val
  server_nextval :: val

text \<open>
  The row as it is stored: the values given for the columns of the table; for a column
  that is given none, the server's clock when it has a server default and the next
  sequence value when it is an identity column.
\<close>

definition stored_row :: "server \<Rightarrow> mapped_class \<Rightarrow> row \<Rightarrow> row" where
  "stored_row srv m r =
     (\<lambda>c. case find (\<lambda>k. col_name k = c) (columns m) of
             None \<Rightarrow> None
           | Some k \<Rightarrow>
               (case r c of
                  Some v \<Rightarrow> Some v
                | None \<Rightarrow>
                    if server_default k then Some (server_now srv)
                    else if autoincrement k then Some (server_nextval srv)
                    else None))"

definition not_null_violations :: "mapped_class \<Rightarrow> row \<Rightarrow> column list" where
  "not_null_violations m s = filter (\<lambda>k. \<not> nullable k \<and> s (col_name k) = None) (columns m)"

definition unique_violations :: "mapped_class \<Rightarrow> row \<Rightarrow> row list \<Rightarrow> column list" where
  "unique_violations m s rows =
     filter (\<lambda>k. (primary_key k \<or> unique k) \<and> s (col_name k) \<noteq> None
                  \<and> list_ex (\<lambda>r. r (col_name k) = s (col_name k)) rows) (columns m)"

definition fk_missing :: "database \<Rightarrow> row \<Rightarrow> column \<Rightarrow> bool" where
  "fk_missing d s k =
     (case foreign_key k of
        None \<Rightarrow> False
      | Some (ForeignKey pt pc act) \<Rightarrow>
          s (col_name k) \<noteq> None \<and> \<not> list_ex (\<lambda>p. p pc = s (col_name k)) (d pt))"

definition fk_violations :: "mapped_class \<Rightarrow> row \<Rightarrow> database \<Rightarrow> column list" where
  "fk_violations m s d = filter (fk_missing d s) (columns m)"

text \<open>\<open>INSERT INTO tn\<close> of one row.\<close>

definition insert_row :: "server \<Rightarrow> string \<Rightarrow> row \<Rightarrow> database \<Rightarrow> db_error + database" where
  "insert_row srv tn r d =
     (case find_table tn of
        None \<Rightarrow> Inl (UndefinedTable tn)
      | Some m \<Rightarrow>
          (let s = stored_row srv m r in
           case not_null_violations m s of
             k # ks \<Rightarrow> Inl (IntegrityError NotNull tn (col_name k))
           | [] \<Rightarrow>
               (case unique_violations m s (d tn) of
                  k # ks \<Rightarrow> Inl (IntegrityError Unique tn (col_name k))
                | [] \<Rightarrow>
                    (case fk_violations m s d of
                       k # ks \<Rightarrow> Inl (IntegrityError ForeignKeyConstraint tn (col_name k))
                     | [] \<Rightarrow> Inr (d(tn := d tn @ [s]))))))"

text \<open>
  The foreign keys of the schema: child table, child column, parent table, parent column,
  action on delete.
\<close>

definition column_fkeys :: "mapped_class \<Rightarrow> (string \<times> string \<times> string \<times> string \<times> on_delete) list" where
  "column_fkeys m =
     concat (map (\<lambda>k. case foreign_key k of
                         None \<Rightarrow> []
                       | Some (ForeignKey pt pc act) \<Rightarrow> [(tablename m, col_name k, pt, pc, act)])
                 (columns m))"

definition foreign_keys :: "(string \<times> string \<times> string \<times> string \<times> on_delete) list" where
  "foreign_keys = concat (map column_fkeys models)"

definition referencing :: "string \<Rightarrow> (string \<times> string \<times> string \<times> on_delete) list" where
  "referencing tn =
     map (\<lambda>(ct, cc, pt, pc, act). (ct, cc, pc, act))
       (filter (\<lambda>(ct, cc, pt, pc, act). pt = tn) foreign_keys)"

text \<open>Whether a child row references one of the deleted parent rows through a key.\<close>

definition refers :: "string \<Rightarrow> string \<Rightarrow> row list \<Rightarrow> row \<Rightarrow> bool" where
  "refers cc pc victims r = (r cc \<noteq> None \<and> list_ex (\<lambda>v. v pc = r cc) victims)"

text \<open>
  \<open>DELETE FROM tn WHERE P\<close>: the rows go, and each foreign key that references the table
  acts on the rows that referenced them.  The first argument bounds the length of a chain
  of cascades.
\<close>

fun delete_where :: "nat \<Rightarrow> string \<Rightarrow> (row \<Rightarrow> bool) \<Rightarrow> database \<Rightarrow> db_error + database" where
  "delete_where 0 tn P d = Inl (CascadeTooDeep tn)"
| "delete_where (Suc n) tn P d =
     (let victims = filter P (d tn);
          d1 = d(tn := filter (\<lambda>r. \<not> P r) (d tn))
      in fold (\<lambda>(ct, cc, pc, act) res.
                 case res of
                   Inl e \<Rightarrow> Inl e
                 | Inr d' \<Rightarrow>
                     (case act of
                        CASCADE \<Rightarrow> delete_where n ct (refers cc pc victims) d'
                      | NO_ACTION \<Rightarrow>
                          if list_ex (refers cc pc victims) (d' ct)
                          then Inl (IntegrityError ForeignKeyConstraint ct cc)
                          else Inr d'))
              (referencing tn) (Inr d1))"

text \<open>
  A chain of cascades visits a table at most once when no table references itself through
  others, so the number of tables bounds it.
\<close>

definition delete_rows :: "string \<Rightarrow> (row \<Rightarrow> bool) \<Rightarrow> database \<Rightarrow> db_error + database" where
  "delete_rows tn P d =
     (case find_table tn of
        None \<Rightarrow> Inl (UndefinedTable tn)
      | Some m \<Rightarrow> delete_where (length models) tn P d)"

text \<open>Referential integrity: every child row with a key references an existing parent row.\<close>

definition fk_holds :: "database \<Rightarrow> string \<times> string \<times> string \<times> string \<times> on_delete \<Rightarrow> bool" where
  "fk_holds d = (\<lambda>(ct, cc, pt, pc, act).
     list_all (\<lambda>r. r cc = None \<or> list_ex (\<lambda>p. p pc = r cc) (d pt)) (d ct))"

definition referential_integrity :: "database \<Rightarrow> bool" where
  "referential_integrity d = list_all (fk_holds d) foreign_keys"

subsection \<open>Sample rows\<close>

text \<open>
  A user with its \<open>uuid4\<close> key; a second row with the same email; a refresh token of the
  first user, sent without an id as the client sends it; another user and a token of
  that user; and a server whose clock reads \<open>t\<close> and whose sequence is at \<open>n\<close>.
\<close>

definition alice :: row where
  "alice = [''user_id'' \<mapsto> VStr ''3f2b8c1e-5a4d-4e6f-9b7a-0c1d2e3f4a5b'',
            ''email'' \<mapsto> VStr ''alice@example.com'',
            ''hashed_password'' \<mapsto> VStr ''$2b$12$abc'']"

definition alice_again :: row where
  "alice_again = [''user_id'' \<mapsto> VStr ''7d9e0f1a-2b3c-4d5e-8f6a-1b2c3d4e5f6a'',
            ''email'' \<mapsto> VStr ''alice@example.com'',
            ''hashed_password'' \<mapsto> VStr ''$2b$12$xyz'']"

definition alice_token :: row where
  "alice_token = [''refresh_token'' \<mapsto> VStr ''tok-1'', ''used'' \<mapsto> VBool False,
            ''exp'' \<mapsto> VInt 1900000000,
            ''user_id'' \<mapsto> VStr ''3f2b8c1e-5a4d-4e6f-9b7a-0c1d2e3f4a5b'']"

definition bob :: row where
  "bob = [''user_id'' \<mapsto> VStr ''c4a1d2e3-6b7f-4a8c-9d0e-2f3a4b5c6d7e'',
            ''email'' \<mapsto> VStr ''bob@example.com'',
            ''hashed_password'' \<mapsto> VStr ''$2b$12$def'']"

definition bob_token :: row where
  "bob_token = [''refresh_token'' \<mapsto> VStr ''tok-2'', ''used'' \<mapsto> VBool False,
            ''exp'' \<mapsto> VInt 1900000600,
            ''user_id'' \<mapsto> VStr ''c4a1d2e3-6b7f-4a8c-9d0e-2f3a4b5c6d7e'']"

definition sample_server :: "int \<Rightarrow> int \<Rightarrow> server" where
  "sample_server t n = \<lparr>server_now = VTime t, server_nextval = VInt n\<rparr>"

subsection \<open>Auxiliary notions\<close>

text \<open>One foreign key holds in a database: the unfolded form of \<open>fk_holds\<close>.\<close>

definition refs_ok :: "database \<Rightarrow> string \<Rightarrow> string \<Rightarrow> string \<Rightarrow> string \<Rightarrow> bool" where
  "refs_ok d ct cc pt pc = (\<forall>r \<in> set (d ct). r cc = None \<or> (\<exists>p \<in> set (d pt). p pc = r cc))"

text \<open>
  The first user inserted into the empty database, then the token of that user, then the
  other user, then the token of the other user.
\<close>

definition db_alice :: database where
  "db_alice = empty_db(''user_account'' := [stored_row (sample_server 0 1) User alice])"

definition db_alice_token :: database where
  "db_alice_token =
     db_alice(''refresh_token'' := [stored_row (sample_server 1 1) RefreshToken alice_token])"

definition db_bob :: database where
  "db_bob = db_alice_token(''user_account'' :=
     [stored_row (sample_server 0 1) User alice, stored_row (sample_server 2 2) User bob])"

definition db_bob_token :: database where
  "db_bob_token = db_bob(''refresh_token'' :=
     [stored_row (sample_server 1 1) RefreshToken alice_token,
      stored_row (sample_server 3 2) RefreshToken bob_token])"

section \<open>Properties of the fetcher\<close>

subsection \<open>The request that is sent\<close>






lemma model_dump_user_name_request:
  "model_dump_by_alias user_name_request = [(''username'', ''bob''), (''page'', ''2'')]"
  by (simp add: model_dump_by_alias_def user_name_request_def dump_key_def)



text \<open>Every path of \<open>make_request\<close> issues exactly one GET, and it is this one.\<close>

lemma gets_make_request:
  "gets (snd (make_request env self rd tok base)) =
     [\<lparr>get_url = base @ get_endpoint self,
       get_headers = [(''Authorization'', ''Bearer '' @ tok)],
       get_params = model_dump_by_alias rd, get_timeout = 15\<rparr>]"
  by (simp add: make_request_def gets_def Let_def split: sum.splits exn.splits option.splits)

text \<open>
  C6: the URL of the GET is \<open>base_url\<close> followed by the endpoint, character for
  character, whatever slashes the two strings end and begin with; a base URL
  \<open>https://api.example.com\<close> and the endpoint \<open>/v1/lookup\<close> give
  \<open>https://api.example.com/v1/lookup\<close>.
\<close>

theorem url_is_concatenation:
  "map get_url (gets (snd (make_request env self rd tok base))) = [base @ get_endpoint self]
   \<and> map get_url (gets (snd (make_request env lookup_service rd tok ''https://api.example.com'')))
       = [''https://api.example.com/v1/lookup'']"
  by (simp add: gets_make_request lookup_service_def)

theorem url_is_concatenation_witness:
  "map get_url (gets (snd (make_request (sample_env (Inl (OtherException ''timed out'')))
      lookup_service user_name_request ''t0k'' ''https://api.example.com/'')))
     = [''https://api.example.com//v1/lookup'']"
  using url_is_concatenation [of "sample_env (Inl (OtherException ''timed out''))" lookup_service
      user_name_request "''t0k''" "''https://api.example.com/''"]
  by (simp add: lookup_service_def)




subsection \<open>The successful path\<close>

lemma make_request_success:
  assumes "http_get env \<lparr>get_url = base @ get_endpoint self,
       get_headers = [(''Authorization'', ''Bearer '' @ tok)],
       get_params = model_dump_by_alias rd, get_timeout = 15\<rparr> = Inr r"
    and "is_success r"
  shows "make_request env self rd tok base =
     (let evs = [Get \<lparr>get_url = base @ get_endpoint self,
       get_headers = [(''Authorization'', ''Bearer '' @ tok)],
       get_params = model_dump_by_alias rd, get_timeout = 15\<rparr>,
                 Log INFO (class_name self @ '' with params ''
                   @ format_dict env (model_dump_by_alias rd) @ '' request successful'')]
      in case json_loads env (content r) of
           Inl exc \<Rightarrow> (Inl exc, evs)
         | Inr j \<Rightarrow>
             (case parse_response self j of
                Inl exc \<Rightarrow>
                  if is_Exception exc then
                    (Inl exc,
                     evs @ [Log ERROR (''An error occurred while parsing response from ''
                       @ (base @ get_endpoint self) @ '' with params ''
                       @ format_dict env (model_dump_by_alias rd))])
                  else (Inl exc, evs)
              | Inr v \<Rightarrow> (Inr v, evs)))"
  using assms by (simp add: make_request_def Let_def raise_for_status_def)

text \<open>
  C1: when the GET that is issued is answered by a 2xx response whose body is the JSON
  value \<open>j\<close>, the call ends as \<open>parse_response j\<close> ends: it returns the value the parser
  returns (and raises what the parser raises).
\<close>

theorem make_request_returns_parsed:
  assumes "gets (snd (make_request env self rd tok base)) = [c]"
    and "http_get env c = Inr r" and "is_success r"
    and "json_loads env (content r) = Inr j"
  shows "fst (make_request env self rd tok base) = parse_response self j"
proof -
  from assms(1) have c: "c = \<lparr>get_url = base @ get_endpoint self,
       get_headers = [(''Authorization'', ''Bearer '' @ tok)],
       get_params = model_dump_by_alias rd, get_timeout = 15\<rparr>"
    by (simp add: gets_make_request)
  show ?thesis
    using assms(2-4) unfolding c
    by (simp add: make_request_success Let_def split: sum.splits)
qed

theorem make_request_returns_parsed_witness:
  "fst (make_request (sample_env (Inr \<lparr>status_code = 200, content = [0x34, 0x32]\<rparr>))
          lookup_service user_name_request ''t0k'' ''https://api.example.com'') = Inr (Some 42)
   \<and> parse_response lookup_service 42 = Inr (Some 42)"
proof -
  let ?r = "\<lparr>status_code = 200, content = [0x34, 0x32]\<rparr>"
  let ?c = "\<lparr>get_url = ''https://api.example.com'' @ get_endpoint lookup_service,
       get_headers = [(''Authorization'', ''Bearer '' @ ''t0k'')],
       get_params = model_dump_by_alias user_name_request, get_timeout = 15\<rparr>"
  have 1: "gets (snd (make_request (sample_env (Inr ?r)) lookup_service
          user_name_request ''t0k'' ''https://api.example.com'')) = [?c]"
    by (rule gets_make_request)
  have 2: "http_get (sample_env (Inr ?r)) ?c = Inr ?r" by (simp add: sample_env_def)
  have 3: "is_success ?r" by (simp add: is_success_def)
  have 4: "json_loads (sample_env (Inr ?r)) (content ?r) = Inr 42"
    by (simp add: sample_env_def sample_json_def)
  have 5: "parse_response lookup_service 42 = Inr (Some 42)"
    by (simp add: lookup_service_def)
  show ?thesis
    using make_request_returns_parsed [OF 1 2 3 4] 5 by simp
qed




text \<open>
  C10, as claimed, fails: the call returns what the hook returns, and nothing keeps a
  hook from returning \<open>None\<close>.  On a 200 response with body \<open>42\<close>, a parser that returns
  \<open>None\<close> makes the call return \<open>None\<close>.
\<close>

theorem make_request_returns_None:
  "fst (make_request (sample_env (Inr \<lparr>status_code = 200, content = [0x34, 0x32]\<rparr>))
          none_service user_name_request ''t0k'' ''https://api.example.com'') = Inr None"
  by (simp add: make_request_def Let_def sample_env_def raise_for_status_def is_success_def
      sample_json_def none_service_def lookup_service_def)

text \<open>
  C10, amended: a call raises, or it returns the value \<open>parse_response\<close> returned; it
  returns \<open>None\<close> only when \<open>parse_response\<close> returned \<open>None\<close>, so with a parser that never
  returns \<open>None\<close> no path of \<open>make_request\<close> returns \<open>None\<close>.
\<close>

theorem make_request_returns_hook_value:
  "((\<exists>exc. fst (make_request env self rd tok base) = Inl exc)
      \<or> (\<exists>j. parse_response self j = fst (make_request env self rd tok base)))
   \<and> (fst (make_request env self rd tok base) = Inr None \<longrightarrow>
        (\<exists>j. parse_response self j = Inr None))
   \<and> ((\<forall>j. parse_response self j \<noteq> Inr None) \<longrightarrow>
        fst (make_request env self rd tok base) \<noteq> Inr None)"
proof -
  have ret: "\<exists>j. parse_response self j = Inr v"
    if "fst (make_request env self rd tok base) = Inr v" for v
    using that
    by (auto simp: make_request_def Let_def split: sum.splits exn.splits option.splits if_splits)
  have "(\<exists>exc. fst (make_request env self rd tok base) = Inl exc)
      \<or> (\<exists>j. parse_response self j = fst (make_request env self rd tok base))"
  proof (cases "fst (make_request env self rd tok base)")
    case (Inl exc)
    then show ?thesis by simp
  next
    case (Inr v)
    with ret [OF Inr] show ?thesis by simp
  qed
  moreover have "fst (make_request env self rd tok base) = Inr None \<longrightarrow>
        (\<exists>j. parse_response self j = Inr None)"
    using ret by blast
  ultimately show ?thesis by blast
qed

theorem make_request_returns_hook_value_witness:
  "(\<forall>j. parse_response lookup_service j \<noteq> Inr None)
   \<and> fst (make_request (sample_env (Inr \<lparr>status_code = 200, content = [0x34, 0x32]\<rparr>))
          lookup_service user_name_request ''t0k'' ''https://api.example.com'') \<noteq> Inr None
   \<and> fst (make_request (sample_env (Inr \<lparr>status_code = 200, content = [0x34, 0x32]\<rparr>))
          lookup_service user_name_request ''t0k'' ''https://api.example.com'') = Inr (Some 42)"
proof -
  have h: "\<forall>j. parse_response lookup_service j \<noteq> Inr None"
    by (simp add: lookup_service_def)
  have v: "fst (make_request (sample_env (Inr \<lparr>status_code = 200, content = [0x34, 0x32]\<rparr>))
          lookup_service user_name_request ''t0k'' ''https://api.example.com'') = Inr (Some 42)"
    by (simp add: make_request_def Let_def sample_env_def raise_for_status_def is_success_def
        sample_json_def lookup_service_def)
  show ?thesis
    using make_request_returns_hook_value [of "sample_env (Inr \<lparr>status_code = 200,
        content = [0x34, 0x32]\<rparr>)" lookup_service user_name_request "''t0k''"
        "''https://api.example.com''"] h v
    by blast
qed

subsection \<open>The failing paths\<close>

text \<open>
  A response outside 2xx whose body is well-formed UTF-8 is logged once, at error level,
  with its status and body, and the \<open>HTTPStatusError\<close> that carries it is raised.
\<close>

lemma status_error_logged:
  assumes "gets (snd (make_request env self rd tok base)) = [c]"
    and "http_get env c = Inr r" and "\<not> is_success r"
    and "decode_utf8 (content r) = Some body"
  shows "make_request env self rd tok base =
           (Inl (HTTPStatusError r),
            [Get c, Log ERROR (''Error response '' @ str_nat (status_code r)
               @ '' while making request to '' @ base @ get_endpoint self
               @ ''. Response content: '' @ body)])"
proof -
  from assms(1) have c: "c = \<lparr>get_url = base @ get_endpoint self,
       get_headers = [(''Authorization'', ''Bearer '' @ tok)],
       get_params = model_dump_by_alias rd, get_timeout = 15\<rparr>"
    by (simp add: gets_make_request)
  show ?thesis
    using assms(2-4) unfolding c
    by (simp add: make_request_def Let_def raise_for_status_def)
qed

text \<open>
  A response outside 2xx whose body is not well-formed UTF-8 makes the handler fail
  while it builds its message: the call raises \<open>UnicodeDecodeError\<close> and logs nothing.
\<close>

lemma status_error_undecodable:
  assumes "gets (snd (make_request env self rd tok base)) = [c]"
    and "http_get env c = Inr r" and "\<not> is_success r"
    and "decode_utf8 (content r) = None"
  shows "make_request env self rd tok base = (Inl (UnicodeDecodeError (content r)), [Get c])"
proof -
  from assms(1) have c: "c = \<lparr>get_url = base @ get_endpoint self,
       get_headers = [(''Authorization'', ''Bearer '' @ tok)],
       get_params = model_dump_by_alias rd, get_timeout = 15\<rparr>"
    by (simp add: gets_make_request)
  show ?thesis
    using assms(2-4) unfolding c
    by (simp add: make_request_def Let_def raise_for_status_def)
qed

text \<open>
  A fault of the transport that is an instance of \<open>Exception\<close> is logged once, at error
  level, and raised unchanged; one that is not is raised unchanged with no log line.
\<close>

lemma transport_fault_logged:
  assumes "gets (snd (make_request env self rd tok base)) = [c]"
    and "http_get env c = Inl (OtherException m)"
  shows "make_request env self rd tok base =
           (Inl (OtherException m),
            [Get c, Log ERROR (''An error occurred while making request to '' @ base
               @ get_endpoint self @ '': '' @ str_exc env (OtherException m))])"
proof -
  from assms(1) have c: "c = \<lparr>get_url = base @ get_endpoint self,
       get_headers = [(''Authorization'', ''Bearer '' @ tok)],
       get_params = model_dump_by_alias rd, get_timeout = 15\<rparr>"
    by (simp add: gets_make_request)
  show ?thesis
    using assms(2) unfolding c
    by (simp add: make_request_def Let_def)
qed

lemma transport_interrupt_not_logged:
  assumes "gets (snd (make_request env self rd tok base)) = [c]"
    and "http_get env c = Inl (NonException n)"
  shows "make_request env self rd tok base = (Inl (NonException n), [Get c])"
proof -
  from assms(1) have c: "c = \<lparr>get_url = base @ get_endpoint self,
       get_headers = [(''Authorization'', ''Bearer '' @ tok)],
       get_params = model_dump_by_alias rd, get_timeout = 15\<rparr>"
    by (simp add: gets_make_request)
  show ?thesis
    using assms(2) unfolding c
    by (simp add: make_request_def Let_def)
qed

text \<open>
  C2: the claim is that a response outside 2xx always ends in an error that carries the
  status and the body, after exactly one error-level log line.  On a status 500 whose
  body is the single byte \<open>0xFF\<close> the call raises \<open>UnicodeDecodeError\<close> instead, and no
  error-level line is logged.
\<close>

theorem status_error_undecodable_body:
  "fst (make_request (sample_env (Inr \<lparr>status_code = 500, content = [0xFF]\<rparr>)) lookup_service
          user_name_request ''t0k'' ''https://api.example.com'') = Inl (UnicodeDecodeError [0xFF])
   \<and> error_logs (snd (make_request (sample_env (Inr \<lparr>status_code = 500, content = [0xFF]\<rparr>))
          lookup_service user_name_request ''t0k'' ''https://api.example.com'')) = []"
  by (simp add: make_request_def Let_def sample_env_def raise_for_status_def is_success_def
      decode_utf8_def error_logs_def)

theorem status_error_undecodable_body_witness:
  "fst (make_request (sample_env (Inr \<lparr>status_code = 500, content = [0xFF]\<rparr>)) lookup_service
          user_name_request ''t0k'' ''https://api.example.com'')
     \<noteq> Inl (HTTPStatusError \<lparr>status_code = 500, content = [0xFF]\<rparr>)"
  using status_error_undecodable_body by simp

text \<open>
  C4: the claim is that every failing call logs at least once before it raises.  On the
  same response (status 500, body \<open>0xFF\<close>) the only effect of the call is its GET: it
  raises with no log line of any level.
\<close>

theorem failure_without_log:
  "make_request (sample_env (Inr \<lparr>status_code = 500, content = [0xFF]\<rparr>)) lookup_service
          user_name_request ''t0k'' ''https://api.example.com'' =
     (Inl (UnicodeDecodeError [0xFF]),
      [Get \<lparr>get_url = ''https://api.example.com/v1/lookup'',
            get_headers = [(''Authorization'', ''Bearer t0k'')],
            get_params = [(''username'', ''bob''), (''page'', ''2'')], get_timeout = 15\<rparr>])"
  by (simp add: make_request_def Let_def sample_env_def raise_for_status_def is_success_def
      decode_utf8_def lookup_service_def model_dump_user_name_request)

theorem failure_without_log_witness:
  "logs (snd (make_request (sample_env (Inr \<lparr>status_code = 500, content = [0xFF]\<rparr>)) lookup_service
          user_name_request ''t0k'' ''https://api.example.com'')) = []"
  using failure_without_log by (simp add: logs_def)

section \<open>Properties of the schema\<close>

subsection \<open>The declarations, evaluated\<close>

lemmas schema_defs = models_def User_def RefreshToken_def Role_def UserRole_def Permission_def
  RolePermission_def AuditLog_def Base_columns_def mapped_column_def

lemma foreign_keys_eq: "foreign_keys =
  [(''refresh_token'', ''user_id'', ''user_account'', ''user_id'', CASCADE),
   (''user_role'', ''user_id'', ''user_account'', ''user_id'', CASCADE),
   (''user_role'', ''role_id'', ''role'', ''role_id'', CASCADE),
   (''role_permission'', ''role_id'', ''role'', ''role_id'', CASCADE),
   (''role_permission'', ''permission_id'', ''permission'', ''permission_id'', CASCADE),
   (''audit_log'', ''user_id'', ''user_account'', ''user_id'', CASCADE)]"
  by (simp add: foreign_keys_def column_fkeys_def schema_defs)

lemma referencing_user_account: "referencing ''user_account'' =
  [(''refresh_token'', ''user_id'', ''user_id'', CASCADE),
   (''user_role'', ''user_id'', ''user_id'', CASCADE),
   (''audit_log'', ''user_id'', ''user_id'', CASCADE)]"
  by (simp add: referencing_def foreign_keys_eq)

lemma referencing_role: "referencing ''role'' =
  [(''user_role'', ''role_id'', ''role_id'', CASCADE),
   (''role_permission'', ''role_id'', ''role_id'', CASCADE)]"
  by (simp add: referencing_def foreign_keys_eq)

lemma referencing_permission: "referencing ''permission'' =
  [(''role_permission'', ''permission_id'', ''permission_id'', CASCADE)]"
  by (simp add: referencing_def foreign_keys_eq)

lemma referencing_leaf:
  "referencing ''refresh_token'' = []" "referencing ''user_role'' = []"
  "referencing ''role_permission'' = []" "referencing ''audit_log'' = []"
  by (simp_all add: referencing_def foreign_keys_eq)

lemma find_table_cases:
  "find_table tn = Some m \<Longrightarrow>
     tn = ''user_account'' \<or> tn = ''refresh_token'' \<or> tn = ''role'' \<or> tn = ''user_role''
     \<or> tn = ''permission'' \<or> tn = ''role_permission'' \<or> tn = ''audit_log''"
  by (simp add: find_table_def schema_defs split: if_splits)

lemma find_table_eqs:
  "find_table ''user_account'' = Some User" "find_table ''refresh_token'' = Some RefreshToken"
  "find_table ''role'' = Some Role" "find_table ''user_role'' = Some UserRole"
  "find_table ''permission'' = Some Permission"
  "find_table ''role_permission'' = Some RolePermission"
  "find_table ''audit_log'' = Some AuditLog"
  by (simp_all add: find_table_def models_def User_def RefreshToken_def Role_def UserRole_def
      Permission_def RolePermission_def AuditLog_def)

lemma length_models: "length models = Suc (Suc (Suc (Suc (Suc (Suc (Suc 0))))))"
  by (simp add: models_def)

lemma delete_where_leaf:
  "referencing tn = [] \<Longrightarrow>
   delete_where (Suc n) tn P d = Inr (d(tn := filter (\<lambda>r. \<not> P r) (d tn)))"
  by (simp add: Let_def)

lemma delete_rows_user_account:
  "delete_rows ''user_account'' P d =
     Inr (d(''user_account'' := filter (\<lambda>r. \<not> P r) (d ''user_account''),
            ''refresh_token'' := filter (\<lambda>r. \<not> refers ''user_id'' ''user_id''
                 (filter P (d ''user_account'')) r) (d ''refresh_token''),
            ''user_role'' := filter (\<lambda>r. \<not> refers ''user_id'' ''user_id''
                 (filter P (d ''user_account'')) r) (d ''user_role''),
            ''audit_log'' := filter (\<lambda>r. \<not> refers ''user_id'' ''user_id''
                 (filter P (d ''user_account'')) r) (d ''audit_log'')))"
  by (simp add: delete_rows_def find_table_eqs length_models referencing_user_account
      referencing_leaf Let_def)

lemma delete_rows_role:
  "delete_rows ''role'' P d =
     Inr (d(''role'' := filter (\<lambda>r. \<not> P r) (d ''role''),
            ''user_role'' := filter (\<lambda>r. \<not> refers ''role_id'' ''role_id''
                 (filter P (d ''role'')) r) (d ''user_role''),
            ''role_permission'' := filter (\<lambda>r. \<not> refers ''role_id'' ''role_id''
                 (filter P (d ''role'')) r) (d ''role_permission'')))"
  by (simp add: delete_rows_def find_table_eqs length_models referencing_role
      referencing_leaf Let_def)

lemma delete_rows_permission:
  "delete_rows ''permission'' P d =
     Inr (d(''permission'' := filter (\<lambda>r. \<not> P r) (d ''permission''),
            ''role_permission'' := filter (\<lambda>r. \<not> refers ''permission_id'' ''permission_id''
                 (filter P (d ''permission'')) r) (d ''role_permission'')))"
  by (simp add: delete_rows_def find_table_eqs length_models referencing_permission
      referencing_leaf Let_def)

lemma delete_rows_leaf:
  "tn = ''refresh_token'' \<or> tn = ''user_role'' \<or> tn = ''role_permission'' \<or> tn = ''audit_log''
   \<Longrightarrow> delete_rows tn P d = Inr (d(tn := filter (\<lambda>r. \<not> P r) (d tn)))"
  by (auto simp: delete_rows_def find_table_eqs length_models referencing_leaf Let_def)

subsection \<open>Back-references\<close>

text \<open>
  C9: \<open>UserRole\<close> and \<open>RolePermission\<close> declare four relationships whose \<open>back_populates\<close>
  names (\<open>roles\<close>, \<open>users\<close>, \<open>permissions\<close>, \<open>roles\<close>) are attributes of no target class:
  \<open>User\<close> declares only \<open>refresh_tokens\<close>, \<open>Role\<close> and \<open>Permission\<close> declare no
  relationship.  These four are the only back-references of the file that do not resolve.
\<close>

theorem back_references_undeclared:
  "unresolved =
     [(''UserRole'', ''user'', ''User'', ''roles''),
      (''UserRole'', ''role'', ''Role'', ''users''),
      (''RolePermission'', ''role'', ''Role'', ''permissions''),
      (''RolePermission'', ''permission'', ''Permission'', ''roles'')]
   \<and> ''roles'' \<notin> set (attributes User) \<and> ''users'' \<notin> set (attributes Role)
   \<and> ''permissions'' \<notin> set (attributes Role) \<and> ''roles'' \<notin> set (attributes Permission)
   \<and> relationships User = [\<lparr>rel_name = ''refresh_tokens'', target = ''RefreshToken'',
                               back_populates = ''user''\<rparr>]
   \<and> relationships Role = [] \<and> relationships Permission = []"
  by (simp add: unresolved_def resolves_def find_class_def attributes_def models_def User_def
      RefreshToken_def Role_def UserRole_def Permission_def RolePermission_def AuditLog_def
      Base_columns_def mapped_column_def)

theorem back_references_undeclared_witness:
  "map (\<lambda>(c, r, t, b). (t, b)) unresolved =
     [(''User'', ''roles''), (''Role'', ''users''), (''Role'', ''permissions''),
      (''Permission'', ''roles'')]"
  by (simp add: back_references_undeclared [THEN conjunct1])

subsection \<open>Inserting\<close>

lemma insert_row_Inr:
  assumes "insert_row srv tn r d = Inr d'"
  obtains m where "find_table tn = Some m"
    and "d' = d(tn := d tn @ [stored_row srv m r])"
    and "not_null_violations m (stored_row srv m r) = []"
    and "unique_violations m (stored_row srv m r) (d tn) = []"
    and "fk_violations m (stored_row srv m r) d = []"
  using assms
  by (auto simp: insert_row_def Let_def split: option.splits list.splits)

lemma stored_user_id: "stored_row srv User r ''user_id'' = r ''user_id''"
  by (simp add: stored_row_def User_def Base_columns_def mapped_column_def autoincrement_def
      split: option.splits)

lemma stored_token_user_id: "stored_row srv RefreshToken r ''user_id'' = r ''user_id''"
  by (simp add: stored_row_def RefreshToken_def Base_columns_def mapped_column_def
      autoincrement_def split: option.splits)

text \<open>A token that is sent without an id is stored with the next value of the sequence.\<close>

lemma stored_token_id:
  "stored_row srv RefreshToken r ''id''
     = (case r ''id'' of Some v \<Rightarrow> Some v | None \<Rightarrow> Some (server_nextval srv))"
  by (simp add: stored_row_def RefreshToken_def Base_columns_def mapped_column_def
      autoincrement_def split: option.splits)

lemma user_id_not_null:
  "not_null_violations User s = [] \<Longrightarrow> s ''user_id'' \<noteq> None"
  by (simp add: not_null_violations_def User_def Base_columns_def mapped_column_def
      split: if_splits)

lemma user_id_unique:
  "unique_violations User s rows = [] \<Longrightarrow> s ''user_id'' \<noteq> None \<Longrightarrow>
   \<not> list_ex (\<lambda>r. r ''user_id'' = s ''user_id'') rows"
  by (simp add: unique_violations_def User_def Base_columns_def mapped_column_def
      split: if_splits)

lemma token_id_unique:
  "unique_violations RefreshToken s rows = [] \<Longrightarrow> s ''id'' \<noteq> None \<Longrightarrow>
   \<not> list_ex (\<lambda>r. r ''id'' = s ''id'') rows"
  by (simp add: unique_violations_def RefreshToken_def Base_columns_def mapped_column_def
      split: if_splits)

lemma token_id_not_null:
  "not_null_violations RefreshToken s = [] \<Longrightarrow> s ''id'' \<noteq> None"
  by (simp add: not_null_violations_def RefreshToken_def Base_columns_def mapped_column_def
      split: if_splits)

lemma insert_bob: "insert_row (sample_server 2 2) ''user_account'' bob db_alice_token = Inr db_bob"
  by (simp add: insert_row_def find_table_eqs Let_def not_null_violations_def
      unique_violations_def fk_violations_def fk_missing_def stored_row_def User_def
      Base_columns_def mapped_column_def autoincrement_def sample_server_def alice_def bob_def
      empty_db_def db_alice_def db_alice_token_def db_bob_def)

lemma insert_bob_token:
  "insert_row (sample_server 3 2) ''refresh_token'' bob_token db_bob = Inr db_bob_token"
  by (simp add: insert_row_def find_table_eqs Let_def not_null_violations_def
      unique_violations_def fk_violations_def fk_missing_def stored_row_def RefreshToken_def
      User_def Base_columns_def mapped_column_def autoincrement_def sample_server_def alice_def
      alice_token_def bob_def bob_token_def empty_db_def db_alice_def db_alice_token_def
      db_bob_def db_bob_token_def)

lemma insert_duplicate:
  assumes ft: "find_table tn = Some m"
    and k: "k \<in> set (columns m)" "col_name k = c" "primary_key k \<or> unique k" "\<not> nullable k"
      "\<not> server_default k" "\<not> autoincrement k"
    and fnd: "find (\<lambda>k'. col_name k' = c) (columns m) = Some k"
    and dup: "list_ex (\<lambda>r0. r0 c = r c) (d tn)"
  shows "\<exists>kind col. insert_row srv tn r d = Inl (IntegrityError kind tn col)
           \<and> kind \<noteq> ForeignKeyConstraint"
proof -
  let ?s = "stored_row srv m r"
  have sc: "?s c = r c"
    using fnd k(5,6) by (simp add: stored_row_def split: option.splits)
  show ?thesis
  proof (cases "not_null_violations m ?s")
    case (Cons a as)
    then show ?thesis using ft by (simp add: insert_row_def Let_def)
  next
    case Nil
    then have "k \<notin> set (not_null_violations m ?s)" by simp
    then have nn: "?s c \<noteq> None"
      using k by (auto simp: not_null_violations_def)
    then have "k \<in> set (unique_violations m ?s (d tn))"
      using k dup sc by (auto simp: unique_violations_def)
    then obtain a as where "unique_violations m ?s (d tn) = a # as"
      by (cases "unique_violations m ?s (d tn)") auto
    then show ?thesis using ft Nil by (simp add: insert_row_def Let_def)
  qed
qed

lemma insert_alice: "insert_row (sample_server 0 1) ''user_account'' alice empty_db = Inr db_alice"
  by (simp add: insert_row_def find_table_eqs Let_def not_null_violations_def
      unique_violations_def fk_violations_def fk_missing_def stored_row_def User_def
      Base_columns_def mapped_column_def autoincrement_def sample_server_def alice_def
      empty_db_def db_alice_def)

lemma insert_alice_token:
  "insert_row (sample_server 1 1) ''refresh_token'' alice_token db_alice = Inr db_alice_token"
  by (simp add: insert_row_def find_table_eqs Let_def not_null_violations_def
      unique_violations_def fk_violations_def fk_missing_def stored_row_def RefreshToken_def
      User_def Base_columns_def mapped_column_def autoincrement_def sample_server_def alice_def
      alice_token_def empty_db_def db_alice_def db_alice_token_def)


text \<open>
  C8: when a table already holds a row with the same value in a column declared
  \<open>unique\<close> (\<open>user_account.email\<close>, \<open>refresh_token.refresh_token\<close>, \<open>role.name\<close>,
  \<open>permission.name\<close>), inserting another row fails with a constraint violation, the one
  of \<open>NOT NULL\<close> or of uniqueness, and the database stays as it was.
\<close>

theorem unique_columns_enforced:
  assumes "(tn, c) \<in> {(''user_account'', ''email''), (''refresh_token'', ''refresh_token''),
                      (''role'', ''name''), (''permission'', ''name'')}"
    and "list_ex (\<lambda>r0. r0 c = r c) (d tn)"
  shows "\<exists>kind col. insert_row srv tn r d = Inl (IntegrityError kind tn col)
           \<and> kind \<noteq> ForeignKeyConstraint"
proof -
  consider "tn = ''user_account''" "c = ''email''" | "tn = ''refresh_token''" "c = ''refresh_token''"
    | "tn = ''role''" "c = ''name''" | "tn = ''permission''" "c = ''name''"
    using assms(1) by auto
  then show ?thesis
  proof cases
    case 1
    show ?thesis unfolding 1
      by (rule insert_duplicate [where m = User
            and k = "(mapped_column ''email'' (String 256))\<lparr>nullable := False, unique := True\<rparr>"])
         (use assms(2) 1 in \<open>simp_all add: find_table_eqs User_def Base_columns_def mapped_column_def
              autoincrement_def\<close>)
  next
    case 2
    show ?thesis unfolding 2
      by (rule insert_duplicate [where m = RefreshToken
            and k = "(mapped_column ''refresh_token'' (String 512))\<lparr>nullable := False, unique := True\<rparr>"])
         (use assms(2) 2 in \<open>simp_all add: find_table_eqs RefreshToken_def Base_columns_def mapped_column_def
              autoincrement_def\<close>)
  next
    case 3
    show ?thesis unfolding 3
      by (rule insert_duplicate [where m = Role
            and k = "(mapped_column ''name'' (String 256))\<lparr>nullable := False, unique := True\<rparr>"])
         (use assms(2) 3 in \<open>simp_all add: find_table_eqs Role_def Base_columns_def mapped_column_def
              autoincrement_def\<close>)
  next
    case 4
    show ?thesis unfolding 4
      by (rule insert_duplicate [where m = Permission
            and k = "(mapped_column ''name'' (String 256))\<lparr>nullable := False, unique := True\<rparr>"])
         (use assms(2) 4 in \<open>simp_all add: find_table_eqs Permission_def Base_columns_def mapped_column_def
              autoincrement_def\<close>)
  qed
qed

theorem unique_columns_enforced_witness:
  "list_ex (\<lambda>r0. r0 ''email'' = alice_again ''email'') (db_alice ''user_account'')
   \<and> insert_row (sample_server 2 2) ''user_account'' alice_again db_alice
       = Inl (IntegrityError Unique ''user_account'' ''email'')"
proof -
  have h: "list_ex (\<lambda>r0. r0 ''email'' = alice_again ''email'') (db_alice ''user_account'')"
    by (simp add: db_alice_def stored_row_def User_def Base_columns_def mapped_column_def
        autoincrement_def alice_def alice_again_def)
  have "\<exists>kind col. insert_row (sample_server 2 2) ''user_account'' alice_again db_alice
          = Inl (IntegrityError kind ''user_account'' col) \<and> kind \<noteq> ForeignKeyConstraint"
    using unique_columns_enforced [where tn = "''user_account''" and c = "''email''"
        and r = alice_again and d = db_alice and srv = "sample_server 2 2"] h
    by simp
  moreover have "insert_row (sample_server 2 2) ''user_account'' alice_again db_alice
       = Inl (IntegrityError Unique ''user_account'' ''email'')"
    by (simp add: insert_row_def find_table_eqs Let_def not_null_violations_def
      unique_violations_def stored_row_def User_def Base_columns_def mapped_column_def
      autoincrement_def sample_server_def alice_def alice_again_def empty_db_def db_alice_def)
  ultimately show ?thesis using h by simp
qed


subsection \<open>Deleting: what a cascade leaves\<close>

lemma ri_iff:
  "referential_integrity d \<longleftrightarrow>
     refs_ok d ''refresh_token'' ''user_id'' ''user_account'' ''user_id''
   \<and> refs_ok d ''user_role'' ''user_id'' ''user_account'' ''user_id''
   \<and> refs_ok d ''user_role'' ''role_id'' ''role'' ''role_id''
   \<and> refs_ok d ''role_permission'' ''role_id'' ''role'' ''role_id''
   \<and> refs_ok d ''role_permission'' ''permission_id'' ''permission'' ''permission_id''
   \<and> refs_ok d ''audit_log'' ''user_id'' ''user_account'' ''user_id''"
  by (simp add: referential_integrity_def foreign_keys_eq fk_holds_def refs_ok_def
      list_all_iff list_ex_iff)

lemma refs_ok_sub:
  assumes "refs_ok d ct cc pt pc"
    and "set (d' ct) \<subseteq> set (d ct)"
    and "\<And>r p. r \<in> set (d' ct) \<Longrightarrow> p \<in> set (d pt) \<Longrightarrow> r cc \<noteq> None \<Longrightarrow> p pc = r cc
           \<Longrightarrow> p \<in> set (d' pt)"
  shows "refs_ok d' ct cc pt pc"
  unfolding refs_ok_def
proof (intro ballI)
  fix r assume r: "r \<in> set (d' ct)"
  show "r cc = None \<or> (\<exists>p \<in> set (d' pt). p pc = r cc)"
  proof (cases "r cc = None")
    case True then show ?thesis by simp
  next
    case False
    from r assms(2) have "r \<in> set (d ct)" by auto
    with assms(1) False obtain p where p: "p \<in> set (d pt)" "p pc = r cc"
      by (auto simp: refs_ok_def)
    with assms(3) [OF r p(1) False p(2)] show ?thesis by auto
  qed
qed

lemma ri_delete_user:
  assumes "referential_integrity d" and "delete_rows ''user_account'' P d = Inr d'"
  shows "referential_integrity d'"
proof -
  have d': "d' = d(''user_account'' := filter (\<lambda>r. \<not> P r) (d ''user_account''),
            ''refresh_token'' := filter (\<lambda>r. \<not> refers ''user_id'' ''user_id''
                 (filter P (d ''user_account'')) r) (d ''refresh_token''),
            ''user_role'' := filter (\<lambda>r. \<not> refers ''user_id'' ''user_id''
                 (filter P (d ''user_account'')) r) (d ''user_role''),
            ''audit_log'' := filter (\<lambda>r. \<not> refers ''user_id'' ''user_id''
                 (filter P (d ''user_account'')) r) (d ''audit_log''))"
    using assms(2) by (simp add: delete_rows_user_account)
  from assms(1) have ok:
    "refs_ok d ''refresh_token'' ''user_id'' ''user_account'' ''user_id''"
    "refs_ok d ''user_role'' ''user_id'' ''user_account'' ''user_id''"
    "refs_ok d ''user_role'' ''role_id'' ''role'' ''role_id''"
    "refs_ok d ''role_permission'' ''role_id'' ''role'' ''role_id''"
    "refs_ok d ''role_permission'' ''permission_id'' ''permission'' ''permission_id''"
    "refs_ok d ''audit_log'' ''user_id'' ''user_account'' ''user_id''"
    by (simp_all add: ri_iff)
  have 1: "refs_ok d' ''refresh_token'' ''user_id'' ''user_account'' ''user_id''"
    by (rule refs_ok_sub [OF ok(1)]) (auto simp: d' refers_def list_ex_iff)
  have 2: "refs_ok d' ''user_role'' ''user_id'' ''user_account'' ''user_id''"
    by (rule refs_ok_sub [OF ok(2)]) (auto simp: d' refers_def list_ex_iff)
  have 3: "refs_ok d' ''user_role'' ''role_id'' ''role'' ''role_id''"
    by (rule refs_ok_sub [OF ok(3)]) (auto simp: d')
  have 4: "refs_ok d' ''role_permission'' ''role_id'' ''role'' ''role_id''"
    by (rule refs_ok_sub [OF ok(4)]) (auto simp: d')
  have 5: "refs_ok d' ''role_permission'' ''permission_id'' ''permission'' ''permission_id''"
    by (rule refs_ok_sub [OF ok(5)]) (auto simp: d')
  have 6: "refs_ok d' ''audit_log'' ''user_id'' ''user_account'' ''user_id''"
    by (rule refs_ok_sub [OF ok(6)]) (auto simp: d' refers_def list_ex_iff)
  from 1 2 3 4 5 6 show ?thesis by (simp add: ri_iff)
qed

lemma ri_delete_role:
  assumes "referential_integrity d" and "delete_rows ''role'' P d = Inr d'"
  shows "referential_integrity d'"
proof -
  have d': "d' = d(''role'' := filter (\<lambda>r. \<not> P r) (d ''role''),
            ''user_role'' := filter (\<lambda>r. \<not> refers ''role_id'' ''role_id''
                 (filter P (d ''role'')) r) (d ''user_role''),
            ''role_permission'' := filter (\<lambda>r. \<not> refers ''role_id'' ''role_id''
                 (filter P (d ''role'')) r) (d ''role_permission''))"
    using assms(2) by (simp add: delete_rows_role)
  from assms(1) have ok:
    "refs_ok d ''refresh_token'' ''user_id'' ''user_account'' ''user_id''"
    "refs_ok d ''user_role'' ''user_id'' ''user_account'' ''user_id''"
    "refs_ok d ''user_role'' ''role_id'' ''role'' ''role_id''"
    "refs_ok d ''role_permission'' ''role_id'' ''role'' ''role_id''"
    "refs_ok d ''role_permission'' ''permission_id'' ''permission'' ''permission_id''"
    "refs_ok d ''audit_log'' ''user_id'' ''user_account'' ''user_id''"
    by (simp_all add: ri_iff)
  have 1: "refs_ok d' ''refresh_token'' ''user_id'' ''user_account'' ''user_id''"
    by (rule refs_ok_sub [OF ok(1)]) (auto simp: d')
  have 2: "refs_ok d' ''user_role'' ''user_id'' ''user_account'' ''user_id''"
    by (rule refs_ok_sub [OF ok(2)]) (auto simp: d')
  have 3: "refs_ok d' ''user_role'' ''role_id'' ''role'' ''role_id''"
    by (rule refs_ok_sub [OF ok(3)]) (auto simp: d' refers_def list_ex_iff)
  have 4: "refs_ok d' ''role_permission'' ''role_id'' ''role'' ''role_id''"
    by (rule refs_ok_sub [OF ok(4)]) (auto simp: d' refers_def list_ex_iff)
  have 5: "refs_ok d' ''role_permission'' ''permission_id'' ''permission'' ''permission_id''"
    by (rule refs_ok_sub [OF ok(5)]) (auto simp: d')
  have 6: "refs_ok d' ''audit_log'' ''user_id'' ''user_account'' ''user_id''"
    by (rule refs_ok_sub [OF ok(6)]) (auto simp: d')
  from 1 2 3 4 5 6 show ?thesis by (simp add: ri_iff)
qed

lemma ri_delete_permission:
  assumes "referential_integrity d" and "delete_rows ''permission'' P d = Inr d'"
  shows "referential_integrity d'"
proof -
  have d': "d' = d(''permission'' := filter (\<lambda>r. \<not> P r) (d ''permission''),
            ''role_permission'' := filter (\<lambda>r. \<not> refers ''permission_id'' ''permission_id''
                 (filter P (d ''permission'')) r) (d ''role_permission''))"
    using assms(2) by (simp add: delete_rows_permission)
  from assms(1) have ok:
    "refs_ok d ''refresh_token'' ''user_id'' ''user_account'' ''user_id''"
    "refs_ok d ''user_role'' ''user_id'' ''user_account'' ''user_id''"
    "refs_ok d ''user_role'' ''role_id'' ''role'' ''role_id''"
    "refs_ok d ''role_permission'' ''role_id'' ''role'' ''role_id''"
    "refs_ok d ''role_permission'' ''permission_id'' ''permission'' ''permission_id''"
    "refs_ok d ''audit_log'' ''user_id'' ''user_account'' ''user_id''"
    by (simp_all add: ri_iff)
  have 1: "refs_ok d' ''refresh_token'' ''user_id'' ''user_account'' ''user_id''"
    by (rule refs_ok_sub [OF ok(1)]) (auto simp: d')
  have 2: "refs_ok d' ''user_role'' ''user_id'' ''user_account'' ''user_id''"
    by (rule refs_ok_sub [OF ok(2)]) (auto simp: d')
  have 3: "refs_ok d' ''user_role'' ''role_id'' ''role'' ''role_id''"
    by (rule refs_ok_sub [OF ok(3)]) (auto simp: d')
  have 4: "refs_ok d' ''role_permission'' ''role_id'' ''role'' ''role_id''"
    by (rule refs_ok_sub [OF ok(4)]) (auto simp: d')
  have 5: "refs_ok d' ''role_permission'' ''permission_id'' ''permission'' ''permission_id''"
    by (rule refs_ok_sub [OF ok(5)]) (auto simp: d' refers_def list_ex_iff)
  have 6: "refs_ok d' ''audit_log'' ''user_id'' ''user_account'' ''user_id''"
    by (rule refs_ok_sub [OF ok(6)]) (auto simp: d')
  from 1 2 3 4 5 6 show ?thesis by (simp add: ri_iff)
qed

lemma ri_delete_leaf:
  assumes "referential_integrity d"
    and "tn = ''refresh_token'' \<or> tn = ''user_role'' \<or> tn = ''role_permission'' \<or> tn = ''audit_log''"
    and "delete_rows tn P d = Inr d'"
  shows "referential_integrity d'"
proof -
  have d': "d' = d(tn := filter (\<lambda>r. \<not> P r) (d tn))"
    using assms(2,3) by (simp add: delete_rows_leaf)
  from assms(1) have ok:
    "refs_ok d ''refresh_token'' ''user_id'' ''user_account'' ''user_id''"
    "refs_ok d ''user_role'' ''user_id'' ''user_account'' ''user_id''"
    "refs_ok d ''user_role'' ''role_id'' ''role'' ''role_id''"
    "refs_ok d ''role_permission'' ''role_id'' ''role'' ''role_id''"
    "refs_ok d ''role_permission'' ''permission_id'' ''permission'' ''permission_id''"
    "refs_ok d ''audit_log'' ''user_id'' ''user_account'' ''user_id''"
    by (simp_all add: ri_iff)
  have 1: "refs_ok d' ''refresh_token'' ''user_id'' ''user_account'' ''user_id''"
    by (rule refs_ok_sub [OF ok(1)]) (use assms(2) in \<open>auto simp: d'\<close>)
  have 2: "refs_ok d' ''user_role'' ''user_id'' ''user_account'' ''user_id''"
    by (rule refs_ok_sub [OF ok(2)]) (use assms(2) in \<open>auto simp: d'\<close>)
  have 3: "refs_ok d' ''user_role'' ''role_id'' ''role'' ''role_id''"
    by (rule refs_ok_sub [OF ok(3)]) (use assms(2) in \<open>auto simp: d'\<close>)
  have 4: "refs_ok d' ''role_permission'' ''role_id'' ''role'' ''role_id''"
    by (rule refs_ok_sub [OF ok(4)]) (use assms(2) in \<open>auto simp: d'\<close>)
  have 5: "refs_ok d' ''role_permission'' ''permission_id'' ''permission'' ''permission_id''"
    by (rule refs_ok_sub [OF ok(5)]) (use assms(2) in \<open>auto simp: d'\<close>)
  have 6: "refs_ok d' ''audit_log'' ''user_id'' ''user_account'' ''user_id''"
    by (rule refs_ok_sub [OF ok(6)]) (use assms(2) in \<open>auto simp: d'\<close>)
  from 1 2 3 4 5 6 show ?thesis by (simp add: ri_iff)
qed

lemma delete_rows_succeeds:
  assumes "find_table tn = Some m"
  shows "\<exists>d'. delete_rows tn P d = Inr d'"
  using find_table_cases [OF assms]
  by (auto simp: delete_rows_user_account delete_rows_role delete_rows_permission delete_rows_leaf)

lemma ri_delete:
  assumes "referential_integrity d" and "delete_rows tn P d = Inr d'"
  shows "referential_integrity d'"
proof -
  from assms(2) obtain m where "find_table tn = Some m"
    by (auto simp: delete_rows_def split: option.splits)
  from find_table_cases [OF this] show ?thesis
    using assms ri_delete_user ri_delete_role ri_delete_permission ri_delete_leaf
    by blast
qed

lemma ri_empty: "referential_integrity empty_db"
  by (simp add: ri_iff refs_ok_def empty_db_def)

lemma refs_ok_grow:
  assumes "refs_ok d ct cc pt pc"
    and "set (d pt) \<subseteq> set (d' pt)"
    and "\<And>r. r \<in> set (d' ct) \<Longrightarrow> r \<notin> set (d ct) \<Longrightarrow>
           r cc = None \<or> (\<exists>p \<in> set (d' pt). p pc = r cc)"
  shows "refs_ok d' ct cc pt pc"
  unfolding refs_ok_def
proof (intro ballI)
  fix r assume r: "r \<in> set (d' ct)"
  show "r cc = None \<or> (\<exists>p \<in> set (d' pt). p pc = r cc)"
  proof (cases "r \<in> set (d ct)")
    case True
    with assms(1) have "r cc = None \<or> (\<exists>p \<in> set (d pt). p pc = r cc)"
      by (simp add: refs_ok_def)
    with assms(2) show ?thesis by blast
  next
    case False
    with assms(3) r show ?thesis by blast
  qed
qed

lemma fk_ok_refresh_token:
  "fk_violations RefreshToken s d = [] \<Longrightarrow>
   s ''user_id'' = None \<or> (\<exists>p \<in> set (d ''user_account''). p ''user_id'' = s ''user_id'')"
  by (simp add: fk_violations_def fk_missing_def RefreshToken_def Base_columns_def
      mapped_column_def list_ex_iff split: if_splits)

lemma fk_ok_audit_log:
  "fk_violations AuditLog s d = [] \<Longrightarrow>
   s ''user_id'' = None \<or> (\<exists>p \<in> set (d ''user_account''). p ''user_id'' = s ''user_id'')"
  by (simp add: fk_violations_def fk_missing_def AuditLog_def Base_columns_def
      mapped_column_def list_ex_iff split: if_splits)

lemma fk_ok_user_role:
  assumes "fk_violations UserRole s d = []"
  shows "s ''user_id'' = None \<or> (\<exists>p \<in> set (d ''user_account''). p ''user_id'' = s ''user_id'')"
    and "s ''role_id'' = None \<or> (\<exists>p \<in> set (d ''role''). p ''role_id'' = s ''role_id'')"
  using assms
  by (simp_all add: fk_violations_def fk_missing_def UserRole_def Base_columns_def
      mapped_column_def list_ex_iff split: if_splits)

lemma fk_ok_role_permission:
  assumes "fk_violations RolePermission s d = []"
  shows "s ''role_id'' = None \<or> (\<exists>p \<in> set (d ''role''). p ''role_id'' = s ''role_id'')"
    and "s ''permission_id'' = None
         \<or> (\<exists>p \<in> set (d ''permission''). p ''permission_id'' = s ''permission_id'')"
  using assms
  by (simp_all add: fk_violations_def fk_missing_def RolePermission_def Base_columns_def
      mapped_column_def list_ex_iff split: if_splits)

lemma ri_append:
  assumes ri: "referential_integrity d"
    and tn: "find_table tn = Some m"
    and new:
      "tn = ''refresh_token'' \<Longrightarrow>
         s ''user_id'' = None \<or> (\<exists>p \<in> set (d ''user_account''). p ''user_id'' = s ''user_id'')"
      "tn = ''audit_log'' \<Longrightarrow>
         s ''user_id'' = None \<or> (\<exists>p \<in> set (d ''user_account''). p ''user_id'' = s ''user_id'')"
      "tn = ''user_role'' \<Longrightarrow>
         s ''user_id'' = None \<or> (\<exists>p \<in> set (d ''user_account''). p ''user_id'' = s ''user_id'')"
      "tn = ''user_role'' \<Longrightarrow>
         s ''role_id'' = None \<or> (\<exists>p \<in> set (d ''role''). p ''role_id'' = s ''role_id'')"
      "tn = ''role_permission'' \<Longrightarrow>
         s ''role_id'' = None \<or> (\<exists>p \<in> set (d ''role''). p ''role_id'' = s ''role_id'')"
      "tn = ''role_permission'' \<Longrightarrow>
         s ''permission_id'' = None
         \<or> (\<exists>p \<in> set (d ''permission''). p ''permission_id'' = s ''permission_id'')"
  shows "referential_integrity (d(tn := d tn @ [s]))"
proof -
  let ?d' = "d(tn := d tn @ [s])"
  from ri have ok:
    "refs_ok d ''refresh_token'' ''user_id'' ''user_account'' ''user_id''"
    "refs_ok d ''user_role'' ''user_id'' ''user_account'' ''user_id''"
    "refs_ok d ''user_role'' ''role_id'' ''role'' ''role_id''"
    "refs_ok d ''role_permission'' ''role_id'' ''role'' ''role_id''"
    "refs_ok d ''role_permission'' ''permission_id'' ''permission'' ''permission_id''"
    "refs_ok d ''audit_log'' ''user_id'' ''user_account'' ''user_id''"
    by (simp_all add: ri_iff)
  have 1: "refs_ok ?d' ''refresh_token'' ''user_id'' ''user_account'' ''user_id''"
    by (rule refs_ok_grow [OF ok(1)]) (use new(1) in \<open>auto split: if_splits\<close>)
  have 2: "refs_ok ?d' ''user_role'' ''user_id'' ''user_account'' ''user_id''"
    by (rule refs_ok_grow [OF ok(2)]) (use new(3) in \<open>auto split: if_splits\<close>)
  have 3: "refs_ok ?d' ''user_role'' ''role_id'' ''role'' ''role_id''"
    by (rule refs_ok_grow [OF ok(3)]) (use new(4) in \<open>auto split: if_splits\<close>)
  have 4: "refs_ok ?d' ''role_permission'' ''role_id'' ''role'' ''role_id''"
    by (rule refs_ok_grow [OF ok(4)]) (use new(5) in \<open>auto split: if_splits\<close>)
  have 5: "refs_ok ?d' ''role_permission'' ''permission_id'' ''permission'' ''permission_id''"
    by (rule refs_ok_grow [OF ok(5)]) (use new(6) in \<open>auto split: if_splits\<close>)
  have 6: "refs_ok ?d' ''audit_log'' ''user_id'' ''user_account'' ''user_id''"
    by (rule refs_ok_grow [OF ok(6)]) (use new(2) in \<open>auto split: if_splits\<close>)
  from 1 2 3 4 5 6 show ?thesis by (simp add: ri_iff)
qed

lemma ri_insert:
  assumes ri: "referential_integrity d" and ins: "insert_row srv tn r d = Inr d'"
  shows "referential_integrity d'"
proof -
  from ins obtain m where m: "find_table tn = Some m"
    and d': "d' = d(tn := d tn @ [stored_row srv m r])"
    and fk: "fk_violations m (stored_row srv m r) d = []"
    by (rule insert_row_Inr)
  show ?thesis unfolding d'
  proof (rule ri_append [OF ri m])
    assume "tn = ''refresh_token''"
    with m fk show "stored_row srv m r ''user_id'' = None
        \<or> (\<exists>p \<in> set (d ''user_account''). p ''user_id'' = stored_row srv m r ''user_id'')"
      by (auto simp: find_table_eqs dest: fk_ok_refresh_token)
  next
    assume "tn = ''audit_log''"
    with m fk show "stored_row srv m r ''user_id'' = None
        \<or> (\<exists>p \<in> set (d ''user_account''). p ''user_id'' = stored_row srv m r ''user_id'')"
      by (auto simp: find_table_eqs dest: fk_ok_audit_log)
  next
    assume "tn = ''user_role''"
    with m fk show "stored_row srv m r ''user_id'' = None
        \<or> (\<exists>p \<in> set (d ''user_account''). p ''user_id'' = stored_row srv m r ''user_id'')"
      by (auto simp: find_table_eqs dest: fk_ok_user_role(1))
  next
    assume "tn = ''user_role''"
    with m fk show "stored_row srv m r ''role_id'' = None
        \<or> (\<exists>p \<in> set (d ''role''). p ''role_id'' = stored_row srv m r ''role_id'')"
      by (auto simp: find_table_eqs dest: fk_ok_user_role(2))
  next
    assume "tn = ''role_permission''"
    with m fk show "stored_row srv m r ''role_id'' = None
        \<or> (\<exists>p \<in> set (d ''role''). p ''role_id'' = stored_row srv m r ''role_id'')"
      by (auto simp: find_table_eqs dest: fk_ok_role_permission(1))
  next
    assume "tn = ''role_permission''"
    with m fk show "stored_row srv m r ''permission_id'' = None
        \<or> (\<exists>p \<in> set (d ''permission''). p ''permission_id'' = stored_row srv m r ''permission_id'')"
      by (auto simp: find_table_eqs dest: fk_ok_role_permission(2))
  qed
qed

subsection \<open>Deleting a user or a role\<close>

lemma insert_user_token_delete_user:
  assumes u: "insert_row srv ''user_account'' u d = Inr d1"
    and t: "insert_row srv' ''refresh_token'' t d1 = Inr d2"
    and ref: "t ''user_id'' = u ''user_id''"
  shows "\<exists>d3. delete_rows ''user_account'' (\<lambda>r. r ''user_id'' = u ''user_id'') d2 = Inr d3
           \<and> list_ex (\<lambda>r. r ''id'' = stored_row srv' RefreshToken t ''id'') (d2 ''refresh_token'')
           \<and> \<not> list_ex (\<lambda>r. r ''id'' = stored_row srv' RefreshToken t ''id'') (d3 ''refresh_token'')
           \<and> \<not> list_ex (\<lambda>r. r ''user_id'' = u ''user_id'') (d3 ''refresh_token'')
           \<and> d3 ''user_account'' = d ''user_account''
           \<and> d3 ''refresh_token''
               = filter (\<lambda>r. r ''user_id'' \<noteq> u ''user_id'') (d ''refresh_token'')"
proof -
  let ?su = "stored_row srv User u" and ?st = "stored_row srv' RefreshToken t"
  let ?P = "\<lambda>r. r ''user_id'' = u ''user_id''"
  from u have d1: "d1 = d(''user_account'' := d ''user_account'' @ [?su])"
    and nnu: "not_null_violations User ?su = []"
    and uqu: "unique_violations User ?su (d ''user_account'') = []"
    by (auto elim!: insert_row_Inr simp: find_table_eqs)
  from t have d2: "d2 = d1(''refresh_token'' := d1 ''refresh_token'' @ [?st])"
    and nnt: "not_null_violations RefreshToken ?st = []"
    and uqt: "unique_violations RefreshToken ?st (d1 ''refresh_token'') = []"
    by (auto elim!: insert_row_Inr simp: find_table_eqs)
  have uid: "u ''user_id'' \<noteq> None"
    using user_id_not_null [OF nnu] by (simp add: stored_user_id)
  have ufresh: "\<not> list_ex ?P (d ''user_account'')"
    using user_id_unique [OF uqu] uid by (simp add: stored_user_id)
  have tid: "?st ''id'' \<noteq> None"
    by (rule token_id_not_null [OF nnt])
  have fresh: "\<not> list_ex (\<lambda>r. r ''id'' = ?st ''id'') (d1 ''refresh_token'')"
    by (rule token_id_unique [OF uqt tid])
  have users: "filter ?P (d2 ''user_account'') = [?su]"
    using ufresh by (simp add: d2 d1 stored_user_id list_ex_iff)
  have refers_iff: "refers ''user_id'' ''user_id'' (filter ?P (d2 ''user_account'')) r
      \<longleftrightarrow> r ''user_id'' = u ''user_id''" for r
    unfolding users using uid by (auto simp: refers_def stored_user_id)
  let ?d3 = "d2(''user_account'' := filter (\<lambda>r. \<not> ?P r) (d2 ''user_account''),
            ''refresh_token'' := filter (\<lambda>r. \<not> refers ''user_id'' ''user_id''
                 (filter ?P (d2 ''user_account'')) r) (d2 ''refresh_token''),
            ''user_role'' := filter (\<lambda>r. \<not> refers ''user_id'' ''user_id''
                 (filter ?P (d2 ''user_account'')) r) (d2 ''user_role''),
            ''audit_log'' := filter (\<lambda>r. \<not> refers ''user_id'' ''user_id''
                 (filter ?P (d2 ''user_account'')) r) (d2 ''audit_log''))"
  have del: "delete_rows ''user_account'' ?P d2 = Inr ?d3"
    by (rule delete_rows_user_account)
  have "?d3 ''refresh_token'' = filter (\<lambda>r. \<not> refers ''user_id'' ''user_id''
                 (filter ?P (d2 ''user_account'')) r) (d2 ''refresh_token'')"
    by simp
  also have "\<dots> = filter (\<lambda>r. r ''user_id'' \<noteq> u ''user_id'') (d2 ''refresh_token'')"
    by (simp only: refers_iff)
  also have "\<dots> = filter (\<lambda>r. r ''user_id'' \<noteq> u ''user_id'') (d ''refresh_token'')"
    by (simp add: d2 d1 stored_token_user_id ref)
  finally have rows: "?d3 ''refresh_token''
      = filter (\<lambda>r. r ''user_id'' \<noteq> u ''user_id'') (d ''refresh_token'')" .
  have accounts: "?d3 ''user_account'' = d ''user_account''"
    using ufresh by (simp add: d2 d1 stored_user_id list_ex_iff)
  have there: "list_ex (\<lambda>r. r ''id'' = ?st ''id'') (d2 ''refresh_token'')"
    by (simp add: d2)
  have a: "\<not> list_ex (\<lambda>r. r ''user_id'' = u ''user_id'') (?d3 ''refresh_token'')"
    unfolding rows by (simp add: list_ex_iff)
  have b: "\<not> list_ex (\<lambda>r. r ''id'' = ?st ''id'') (?d3 ''refresh_token'')"
    unfolding rows using fresh by (auto simp: list_ex_iff d1)
  from del there a b rows accounts show ?thesis by blast
qed

text \<open>
  Deleting users: the tables after the statement.  A user goes when it satisfies the
  condition, a token, a join row or an audit row goes when it referenced a deleted user,
  and every other row of every table stays.
\<close>

lemma delete_user_dependents:
  "\<exists>d'. delete_rows ''user_account'' P d = Inr d'
     \<and> \<not> list_ex (refers ''user_id'' ''user_id'' (filter P (d ''user_account''))) (d' ''refresh_token'')
     \<and> \<not> list_ex (refers ''user_id'' ''user_id'' (filter P (d ''user_account''))) (d' ''user_role'')
     \<and> \<not> list_ex (refers ''user_id'' ''user_id'' (filter P (d ''user_account''))) (d' ''audit_log'')
     \<and> \<not> list_ex P (d' ''user_account'')
     \<and> d' = d(''user_account'' := filter (\<lambda>r. \<not> P r) (d ''user_account''),
            ''refresh_token'' := filter (\<lambda>r. \<not> refers ''user_id'' ''user_id''
                 (filter P (d ''user_account'')) r) (d ''refresh_token''),
            ''user_role'' := filter (\<lambda>r. \<not> refers ''user_id'' ''user_id''
                 (filter P (d ''user_account'')) r) (d ''user_role''),
            ''audit_log'' := filter (\<lambda>r. \<not> refers ''user_id'' ''user_id''
                 (filter P (d ''user_account'')) r) (d ''audit_log''))
     \<and> (referential_integrity d \<longrightarrow> referential_integrity d')"
proof -
  obtain d' where d': "delete_rows ''user_account'' P d = Inr d'"
    by (simp add: delete_rows_user_account)
  then have eq: "d' = d(''user_account'' := filter (\<lambda>r. \<not> P r) (d ''user_account''),
            ''refresh_token'' := filter (\<lambda>r. \<not> refers ''user_id'' ''user_id''
                 (filter P (d ''user_account'')) r) (d ''refresh_token''),
            ''user_role'' := filter (\<lambda>r. \<not> refers ''user_id'' ''user_id''
                 (filter P (d ''user_account'')) r) (d ''user_role''),
            ''audit_log'' := filter (\<lambda>r. \<not> refers ''user_id'' ''user_id''
                 (filter P (d ''user_account'')) r) (d ''audit_log''))"
    by (simp add: delete_rows_user_account)
  then have "\<not> list_ex (refers ''user_id'' ''user_id'' (filter P (d ''user_account''))) (d' ''refresh_token'')"
    "\<not> list_ex (refers ''user_id'' ''user_id'' (filter P (d ''user_account''))) (d' ''user_role'')"
    "\<not> list_ex (refers ''user_id'' ''user_id'' (filter P (d ''user_account''))) (d' ''audit_log'')"
    "\<not> list_ex P (d' ''user_account'')"
    by (simp_all add: list_ex_iff)
  with d' eq ri_delete_user [OF _ d'] show ?thesis by blast
qed

lemma delete_role_dependents:
  "\<exists>d'. delete_rows ''role'' P d = Inr d'
     \<and> \<not> list_ex (refers ''role_id'' ''role_id'' (filter P (d ''role''))) (d' ''user_role'')
     \<and> \<not> list_ex (refers ''role_id'' ''role_id'' (filter P (d ''role''))) (d' ''role_permission'')
     \<and> \<not> list_ex P (d' ''role'')
     \<and> d' = d(''role'' := filter (\<lambda>r. \<not> P r) (d ''role''),
            ''user_role'' := filter (\<lambda>r. \<not> refers ''role_id'' ''role_id''
                 (filter P (d ''role'')) r) (d ''user_role''),
            ''role_permission'' := filter (\<lambda>r. \<not> refers ''role_id'' ''role_id''
                 (filter P (d ''role'')) r) (d ''role_permission''))
     \<and> (referential_integrity d \<longrightarrow> referential_integrity d')"
proof -
  obtain d' where d': "delete_rows ''role'' P d = Inr d'"
    by (simp add: delete_rows_role)
  then have eq: "d' = d(''role'' := filter (\<lambda>r. \<not> P r) (d ''role''),
            ''user_role'' := filter (\<lambda>r. \<not> refers ''role_id'' ''role_id''
                 (filter P (d ''role'')) r) (d ''user_role''),
            ''role_permission'' := filter (\<lambda>r. \<not> refers ''role_id'' ''role_id''
                 (filter P (d ''role'')) r) (d ''role_permission''))"
    by (simp add: delete_rows_role)
  then have "\<not> list_ex (refers ''role_id'' ''role_id'' (filter P (d ''role''))) (d' ''user_role'')"
    "\<not> list_ex (refers ''role_id'' ''role_id'' (filter P (d ''role''))) (d' ''role_permission'')"
    "\<not> list_ex P (d' ''role'')"
    by (simp_all add: list_ex_iff)
  with d' eq ri_delete_role [OF _ d'] show ?thesis by blast
qed


text \<open>
  C7: after a user is inserted and then a refresh token that references it (the token's
  id is the one the server stored, assigned from the sequence when the client sent
  none), the token is in the table; deleting the user then succeeds and leaves no
  refresh token with that id or that user, while the users that were there before and
  the tokens of the other users all stay.  In any database, deleting users (or roles)
  succeeds, leaves no token, join row or audit row that referenced a deleted user (no
  join row that referenced a deleted role), removes no other row of any table, and keeps
  referential integrity: every remaining child row references an existing parent.
\<close>

theorem cascade_delete:
  "(insert_row srv ''user_account'' u d = Inr d1 \<longrightarrow>
    insert_row srv' ''refresh_token'' t d1 = Inr d2 \<longrightarrow> t ''user_id'' = u ''user_id'' \<longrightarrow>
      (\<exists>d3. delete_rows ''user_account'' (\<lambda>r. r ''user_id'' = u ''user_id'') d2 = Inr d3
           \<and> list_ex (\<lambda>r. r ''id'' = stored_row srv' RefreshToken t ''id'') (d2 ''refresh_token'')
           \<and> \<not> list_ex (\<lambda>r. r ''id'' = stored_row srv' RefreshToken t ''id'') (d3 ''refresh_token'')
           \<and> \<not> list_ex (\<lambda>r. r ''user_id'' = u ''user_id'') (d3 ''refresh_token'')
           \<and> d3 ''user_account'' = d ''user_account''
           \<and> d3 ''refresh_token''
               = filter (\<lambda>r. r ''user_id'' \<noteq> u ''user_id'') (d ''refresh_token'')))
   \<and> (\<exists>d'. delete_rows ''user_account'' P d = Inr d'
     \<and> \<not> list_ex (refers ''user_id'' ''user_id'' (filter P (d ''user_account''))) (d' ''refresh_token'')
     \<and> \<not> list_ex (refers ''user_id'' ''user_id'' (filter P (d ''user_account''))) (d' ''user_role'')
     \<and> \<not> list_ex (refers ''user_id'' ''user_id'' (filter P (d ''user_account''))) (d' ''audit_log'')
     \<and> \<not> list_ex P (d' ''user_account'')
     \<and> d' = d(''user_account'' := filter (\<lambda>r. \<not> P r) (d ''user_account''),
            ''refresh_token'' := filter (\<lambda>r. \<not> refers ''user_id'' ''user_id''
                 (filter P (d ''user_account'')) r) (d ''refresh_token''),
            ''user_role'' := filter (\<lambda>r. \<not> refers ''user_id'' ''user_id''
                 (filter P (d ''user_account'')) r) (d ''user_role''),
            ''audit_log'' := filter (\<lambda>r. \<not> refers ''user_id'' ''user_id''
                 (filter P (d ''user_account'')) r) (d ''audit_log''))
     \<and> (referential_integrity d \<longrightarrow> referential_integrity d'))
   \<and> (\<exists>d'. delete_rows ''role'' P d = Inr d'
     \<and> \<not> list_ex (refers ''role_id'' ''role_id'' (filter P (d ''role''))) (d' ''user_role'')
     \<and> \<not> list_ex (refers ''role_id'' ''role_id'' (filter P (d ''role''))) (d' ''role_permission'')
     \<and> \<not> list_ex P (d' ''role'')
     \<and> d' = d(''role'' := filter (\<lambda>r. \<not> P r) (d ''role''),
            ''user_role'' := filter (\<lambda>r. \<not> refers ''role_id'' ''role_id''
                 (filter P (d ''role'')) r) (d ''user_role''),
            ''role_permission'' := filter (\<lambda>r. \<not> refers ''role_id'' ''role_id''
                 (filter P (d ''role'')) r) (d ''role_permission''))
     \<and> (referential_integrity d \<longrightarrow> referential_integrity d'))"
  using insert_user_token_delete_user [of srv u d d1 srv' t d2]
    delete_user_dependents [of P d] delete_role_dependents [of P d]
  by blast

text \<open>
  The first user and its token are in the database.  The other user is inserted, then a
  token of that user, which is sent without an id and is stored under the id 2 of the
  sequence; deleting the other user removes that token, and the first user and its token
  are still there.
\<close>

theorem cascade_delete_witness:
  "insert_row (sample_server 2 2) ''user_account'' bob db_alice_token = Inr db_bob
   \<and> insert_row (sample_server 3 2) ''refresh_token'' bob_token db_bob = Inr db_bob_token
   \<and> bob_token ''user_id'' = bob ''user_id''
   \<and> bob_token ''id'' = None
   \<and> stored_row (sample_server 3 2) RefreshToken bob_token ''id'' = Some (VInt 2)
   \<and> referential_integrity db_bob_token
   \<and> (\<exists>d3. delete_rows ''user_account'' (\<lambda>r. r ''user_id'' = bob ''user_id'') db_bob_token = Inr d3
           \<and> list_ex (\<lambda>r. r ''id'' = Some (VInt 2)) (db_bob_token ''refresh_token'')
           \<and> \<not> list_ex (\<lambda>r. r ''id'' = Some (VInt 2)) (d3 ''refresh_token'')
           \<and> \<not> list_ex (\<lambda>r. r ''user_id'' = bob ''user_id'') (d3 ''refresh_token'')
           \<and> d3 ''user_account'' = [stored_row (sample_server 0 1) User alice]
           \<and> d3 ''refresh_token'' = [stored_row (sample_server 1 1) RefreshToken alice_token]
           \<and> referential_integrity d3)"
proof -
  let ?P = "\<lambda>r::row. r ''user_id'' = bob ''user_id''"
  have 3: "bob_token ''user_id'' = bob ''user_id''"
    by (simp add: bob_def bob_token_def)
  have 4: "bob_token ''id'' = None"
    by (simp add: bob_token_def)
  have 5: "stored_row (sample_server 3 2) RefreshToken bob_token ''id'' = Some (VInt 2)"
    by (simp add: stored_token_id 4 sample_server_def)
  have 6: "referential_integrity db_bob_token"
    by (rule ri_insert [OF ri_insert [OF ri_insert [OF ri_insert [OF ri_empty insert_alice]
        insert_alice_token] insert_bob] insert_bob_token])
  have 7: "db_alice_token ''user_account'' = [stored_row (sample_server 0 1) User alice]"
    by (simp add: db_alice_token_def db_alice_def)
  have 8: "filter (\<lambda>r. r ''user_id'' \<noteq> bob ''user_id'') (db_alice_token ''refresh_token'')
      = [stored_row (sample_server 1 1) RefreshToken alice_token]"
    by (simp add: db_alice_token_def stored_token_user_id alice_token_def bob_def)
  obtain d3 where a: "delete_rows ''user_account'' ?P db_bob_token = Inr d3"
    and b: "list_ex (\<lambda>r. r ''id'' = Some (VInt 2)) (db_bob_token ''refresh_token'')"
           "\<not> list_ex (\<lambda>r. r ''id'' = Some (VInt 2)) (d3 ''refresh_token'')"
           "\<not> list_ex (\<lambda>r. r ''user_id'' = bob ''user_id'') (d3 ''refresh_token'')"
           "d3 ''user_account'' = [stored_row (sample_server 0 1) User alice]"
           "d3 ''refresh_token'' = [stored_row (sample_server 1 1) RefreshToken alice_token]"
    using cascade_delete [where srv = "sample_server 2 2" and u = bob and d = db_alice_token
        and ?d1.0 = db_bob and srv' = "sample_server 3 2" and t = bob_token
        and ?d2.0 = db_bob_token]
      insert_bob insert_bob_token 3
    unfolding 5 7 8 by blast
  obtain d' where c: "delete_rows ''user_account'' ?P db_bob_token = Inr d'"
    and d: "referential_integrity d'"
    using cascade_delete [where d = db_bob_token and P = ?P] 6 by blast
  from a c have "d' = d3" by simp
  with a b d insert_bob insert_bob_token 3 4 5 6 show ?thesis by blast
qed

end
